theory Spec2Isabelle
  imports Complex_Main "HOL-Library.Word" "HOL-Library.Sublist"
begin

section \<open>JavaScript strings\<close>

text \<open>
  A JavaScript string is a sequence of 16-bit code units. The sources hold literals with
  characters outside ASCII (the sparkle of the greeting, the warning sign of the error
  bubble, the bullets of the plan), and \<^verbatim>\<open>trim\<close> and the regular expressions look at
  code units, so strings are lists of 16-bit words. \<open>lit\<close> embeds an ASCII literal.
\<close>

type_synonym code_unit = "16 word"
type_synonym jsstring = "code_unit list"

definition lit :: "string \<Rightarrow> jsstring" where
  "lit s = map of_char s"

section \<open>Theme synchronisation (src/src/main.tsx)\<close>

text \<open>
  \<^verbatim>\<open>document.documentElement\<close>, as far as \<^verbatim>\<open>applyTheme\<close> touches it: the class list
  (a DOMTokenList, an ordered set of tokens) and the \<^verbatim>\<open>color-scheme\<close> of the inline
  style. Everything else of the element is the record's extension.
\<close>

record documentElement =
  classList :: "jsstring list"
  colorScheme :: jsstring

text \<open>\<^verbatim>\<open>classList.add(t)\<close> appends the token unless the set has it already.\<close>

definition classList_add :: "jsstring \<Rightarrow> jsstring list \<Rightarrow> jsstring list" where
  "classList_add t ts = (if t \<in> set ts then ts else ts @ [t])"

text \<open>\<^verbatim>\<open>classList.remove(t)\<close> takes the token out of the set.\<close>

definition classList_remove :: "jsstring \<Rightarrow> jsstring list \<Rightarrow> jsstring list" where
  "classList_remove t ts = filter (\<lambda>u. u \<noteq> t) ts"

text \<open>
  \<^verbatim>\<open>
  function applyTheme(theme: 'dark' | 'light') {
    const root = document.documentElement
    if (theme === 'dark') {
      root.classList.add('dark')
      root.style.colorScheme = 'dark'
    } else {
      root.classList.remove('dark')
      root.style.colorScheme = 'light'
    }
  }
  \<close>
\<close>

definition applyTheme ::
  "jsstring \<Rightarrow> 'a documentElement_scheme \<Rightarrow> 'a documentElement_scheme" where
  "applyTheme theme el =
     (if theme = lit ''dark''
      then el\<lparr>classList := classList_add (lit ''dark'') (classList el),
                colorScheme := lit ''dark''\<rparr>
      else el\<lparr>classList := classList_remove (lit ''dark'') (classList el),
                colorScheme := lit ''light''\<rparr>)"

text \<open>
  A StorageEvent: \<^verbatim>\<open>key\<close> and \<^verbatim>\<open>newValue\<close> are strings or \<^verbatim>\<open>null\<close> (the key is null
  after \<^verbatim>\<open>clear()\<close>, the new value is null after \<^verbatim>\<open>removeItem\<close>).
\<close>

record StorageEvent =
  key :: "jsstring option"
  newValue :: "jsstring option"

text \<open>
  \<^verbatim>\<open>
  const onStorage = (e: StorageEvent) => {
    if (e.key === 'theme' && (e.newValue === 'dark' || e.newValue === 'light')) {
      applyTheme(e.newValue)
    }
  }
  \<close>
\<close>

definition onStorage ::
  "StorageEvent \<Rightarrow> 'a documentElement_scheme \<Rightarrow> 'a documentElement_scheme" where
  "onStorage e el =
     (case newValue e of
        None \<Rightarrow> el
      | Some v \<Rightarrow>
          if key e = Some (lit ''theme'') \<and> (v = lit ''dark'' \<or> v = lit ''light'')
          then applyTheme v el
          else el)"

text \<open>
  The page of \<^verbatim>\<open>main.tsx\<close>: the document element and, beside it, the state of
  \<^verbatim>\<open>App\<close>. \<^verbatim>\<open>ThemeSync\<close> registers \<^verbatim>\<open>onStorage\<close> as the only listener of the window's
  \<^verbatim>\<open>storage\<close> events and renders nothing; a storage event delivered to the tab runs the
  listener on the live document and touches nothing else.
\<close>

record 'app page =
  root_element :: documentElement
  app :: 'app

definition storage_event :: "StorageEvent \<Rightarrow> 'app page \<Rightarrow> 'app page" where
  "storage_event e p = p\<lparr>root_element := onStorage e (root_element p)\<rparr>"

section \<open>String operations of the platform\<close>

text \<open>
  \<^verbatim>\<open>String.prototype.trim\<close> strips WhiteSpace and LineTerminator code units from both ends
  (ECMA-262: TAB, VT, FF, SP, NBSP, ZWNBSP and the space separators; LF, CR, LS, PS).
\<close>

definition WhiteSpace :: "code_unit \<Rightarrow> bool" where
  "WhiteSpace c =
     (c \<in> {0x0009, 0x000B, 0x000C, 0x0020, 0x00A0, 0x1680, 0x202F, 0x205F, 0x3000, 0xFEFF}
      \<or> (0x2000 \<le> c \<and> c \<le> 0x200A))"

definition LineTerminator :: "code_unit \<Rightarrow> bool" where
  "LineTerminator c = (c \<in> {0x000A, 0x000D, 0x2028, 0x2029})"

definition trimmable :: "code_unit \<Rightarrow> bool" where
  "trimmable c = (WhiteSpace c \<or> LineTerminator c)"

definition trim :: "jsstring \<Rightarrow> jsstring" where
  "trim s = rev (dropWhile trimmable (rev (dropWhile trimmable s)))"

text \<open>\<^verbatim>\<open>Array.prototype.join\<close> on an array of strings.\<close>

fun join :: "jsstring \<Rightarrow> jsstring list \<Rightarrow> jsstring" where
  "join sep [] = []"
| "join sep [x] = x"
| "join sep (x # y # ys) = x @ sep @ join sep (y # ys)"

text \<open>
  The lines of a string: the pieces between line feeds, as \<^verbatim>\<open>s.split("\n")\<close> gives them
  (the reply is built by \<^verbatim>\<open>join("\n")\<close> and shown with \<^verbatim>\<open>whitespace-pre-wrap\<close>).
\<close>

fun split_lines :: "jsstring \<Rightarrow> jsstring list" where
  "split_lines [] = [[]]"
| "split_lines (c # cs) =
     (if c = 0x000A then [] # split_lines cs
      else (case split_lines cs of
              [] \<Rightarrow> [[c]]
            | l # ls \<Rightarrow> (c # l) # ls))"

definition has_line :: "jsstring \<Rightarrow> jsstring \<Rightarrow> bool" where
  "has_line l s = (l \<in> set (split_lines s))"

text \<open>
  The lines of a string that are neither its first nor its last line.
\<close>

definition inner_lines :: "jsstring \<Rightarrow> jsstring list" where
  "inner_lines s = butlast (tl (split_lines s))"

text \<open>
  Number to string for a non-negative integer (the status of a response, an unsigned
  short): its decimal digits.
\<close>

definition digit :: "nat \<Rightarrow> code_unit" where
  "digit d = of_nat (48 + d)"

fun decimal :: "nat \<Rightarrow> jsstring" where
  "decimal n = (if n < 10 then [digit n] else decimal (n div 10) @ [digit (n mod 10)])"

declare decimal.simps [simp del]

section \<open>The regular expressions of the mock agent\<close>

text \<open>
  Both expressions are alternations of literal words with the flag \<^verbatim>\<open>i\<close> and without the
  flag \<^verbatim>\<open>u\<close>. Such an expression compares code units after \<open>Canonicalize\<close>: the code
  unit's upper case, except that a code unit of 128 or more is never mapped below 128.
  The words of both expressions are ASCII letters, so the only comparisons made are with
  an ASCII letter: a code unit of 128 or more never equals one after \<open>Canonicalize\<close>, and
  below 128 upper case is the ASCII one. \<open>Canonicalize\<close> is written for these
  comparisons: it leaves every code unit of 128 or more where it is.
\<close>

definition Canonicalize :: "code_unit \<Rightarrow> code_unit" where
  "Canonicalize c = (if 0x61 \<le> c \<and> c \<le> 0x7A then c - 0x20 else c)"

text \<open>The word \<open>w\<close> matches at the start of \<open>s\<close>.\<close>

fun match_here :: "jsstring \<Rightarrow> jsstring \<Rightarrow> bool" where
  "match_here [] s = True"
| "match_here (p # ps) [] = False"
| "match_here (p # ps) (c # cs) = (Canonicalize p = Canonicalize c \<and> match_here ps cs)"

text \<open>
  \<^verbatim>\<open>/w1|w2|.../i.test(s)\<close>: some alternative matches at some start index. The expressions
  are not global, so \<^verbatim>\<open>test\<close> keeps no \<^verbatim>\<open>lastIndex\<close>.
\<close>

fun regex_test :: "jsstring list \<Rightarrow> jsstring \<Rightarrow> bool" where
  "regex_test alts [] = list_ex (\<lambda>w. match_here w []) alts"
| "regex_test alts (c # cs) = (list_ex (\<lambda>w. match_here w (c # cs)) alts \<or> regex_test alts cs)"

text \<open>\<^verbatim>\<open>/generate|make|create/i\<close>\<close>

definition action_regex :: "jsstring list" where
  "action_regex = [lit ''generate'', lit ''make'', lit ''create'']"

text \<open>\<^verbatim>\<open>/(image|poster|promo|batch|gallery|variant|ig|tiktok|facebook)/i\<close>\<close>

definition subject_regex :: "jsstring list" where
  "subject_regex =
     [lit ''image'', lit ''poster'', lit ''promo'', lit ''batch'', lit ''gallery'',
      lit ''variant'', lit ''ig'', lit ''tiktok'', lit ''facebook'']"

section \<open>Messages (both variants of App)\<close>

text \<open>
  A JavaScript value as \<^verbatim>\<open>res.json()\<close> can produce it, and \<^verbatim>\<open>undefined\<close>. A number is
  given by its value; \<^verbatim>\<open>App\<close> never computes with one.
\<close>

datatype jsvalue =
    Undefined
  | Null
  | Boolean bool
  | Number real
  | Str jsstring
  | Arr "jsvalue list"
  | Obj "(jsstring \<times> jsvalue) list"

text \<open>
  \<^verbatim>\<open>
  type Role = "user" | "agent";
  type Message = { id: string; role: Role; text: string; createdAt: number };
  \<close>
  \<^verbatim>\<open>text\<close> is typed as a string; the network variant stores \<^verbatim>\<open>data.reply\<close> there, where
  \<^verbatim>\<open>data\<close> is of type \<^verbatim>\<open>any\<close> and nothing checks it, so at run time the field holds a value.
\<close>

datatype Role = User | Agent

record Message =
  id_msg :: jsstring
  role :: Role
  text_msg :: jsvalue
  createdAt :: int

text \<open>
  The two impure calls of \<^verbatim>\<open>App\<close>: \<open>randomUUID env n\<close> is what the \<open>n\<close>-th call of
  \<^verbatim>\<open>crypto.randomUUID()\<close> on this page returns, \<open>Date_now env n\<close> what the \<open>n\<close>-th call of
  \<^verbatim>\<open>Date.now()\<close> returns. The state counts the calls made so far.
\<close>

record env =
  randomUUID :: "nat \<Rightarrow> jsstring"
  Date_now :: "nat \<Rightarrow> int"

text \<open>
  The state of \<^verbatim>\<open>App\<close> that both variants have: the two \<^verbatim>\<open>useState\<close> cells and the
  two call counters.
\<close>

record app_state =
  messages :: "Message list"
  input :: jsstring
  uuid_calls :: nat
  now_calls :: nat

text \<open>
  The greeting. (A quote inside a literal is written as its code unit: 0x27 the
  apostrophe, 0x22 the double quote.)
\<close>

definition greeting :: jsstring where
  "greeting =
     lit ''Hi! I'' @ [0x27] @ lit ''m Bati. Tell me what you want to make and I'' @ [0x27]
     @ lit ''ll plan a batch job for you. '' @ [0x2728]"

text \<open>
  The argument of \<^verbatim>\<open>useState<Message[]>\<close>, evaluated by every render (only the first
  value becomes the state):
  \<^verbatim>\<open>
  [{ id: crypto.randomUUID(), role: "agent", text: "Hi! ...", createdAt: Date.now() }]
  \<close>
\<close>

definition initial_messages :: "env \<Rightarrow> nat \<Rightarrow> nat \<Rightarrow> Message list" where
  "initial_messages env u n =
     [\<lparr>id_msg = randomUUID env u, role = Agent, text_msg = Str greeting,
       createdAt = Date_now env n\<rparr>]"

text \<open>
  A later render evaluates the argument again and drops the value: one more call of each.
\<close>

definition render :: "'a app_state_scheme \<Rightarrow> 'a app_state_scheme" where
  "render s = s\<lparr>uuid_calls := uuid_calls s + 1, now_calls := now_calls s + 1\<rparr>"

text \<open>\<^verbatim>\<open>onChange={(e) => setInput(e.target.value)}\<close>\<close>

definition onChange :: "jsstring \<Rightarrow> 'a app_state_scheme \<Rightarrow> 'a app_state_scheme" where
  "onChange v s = s\<lparr>input := v\<rparr>"

text \<open>The events of the user interface, common to both variants.\<close>

datatype ui_event = Change jsstring | Submit | Render

section \<open>The mock variant (src/unnamed/part_000, first file)\<close>

text \<open>
  \<open>timers\<close> holds the \<^verbatim>\<open>agentMsg\<close> of every \<^verbatim>\<open>setTimeout\<close> callback that has not run yet,
  oldest first. All timers have the same delay of 400 ms, so they run in the order in
  which they were set.
\<close>

record mock_app = app_state +
  timers :: "Message list"

text \<open>
  The composer of this variant is a single-line field,
  \<^verbatim>\<open>
  <input value={input} onChange={(e) => setInput(e.target.value)} ... />
  \<close>
  with no \<^verbatim>\<open>type\<close>, so a text field. The value of a text field is what was typed or
  pasted with every line feed and carriage return taken out (the value sanitization of
  HTML); this is the \<^verbatim>\<open>e.target.value\<close> that \<^verbatim>\<open>onChange\<close> stores, and
  \<^verbatim>\<open>mockAgentReply\<close> is only ever called with the trimmed input.
\<close>

definition input_value :: "jsstring \<Rightarrow> jsstring" where
  "input_value typed = filter (\<lambda>c. c \<noteq> 0x000A \<and> c \<noteq> 0x000D) typed"

text \<open>
  The text of the reply, from the body of \<^verbatim>\<open>mockAgentReply\<close>:
  \<^verbatim>\<open>
  const acknowledgement = `Got it: "${text}". I can create a batch job or answer questions.`;
  const planLines: string[] = [];
  const looksLikeBatch =
    /generate|make|create/i.test(text) &&
    /(image|poster|promo|batch|gallery|variant|ig|tiktok|facebook)/i.test(text);
  if (looksLikeBatch) { planLines.push("Plan:", ...); }
  \<close>
\<close>

definition acknowledgement :: "jsstring \<Rightarrow> jsstring" where
  "acknowledgement text =
     lit ''Got it: '' @ [0x22] @ text @ [0x22]
     @ lit ''. I can create a batch job or answer questions.''"

definition looksLikeBatch :: "jsstring \<Rightarrow> bool" where
  "looksLikeBatch text = (regex_test action_regex text \<and> regex_test subject_regex text)"

definition plan :: "jsstring list" where
  "plan =
     [lit ''Plan:'',
      [0x2022] @ lit '' Seeds: detect from context or ask you to upload'',
      [0x2022] @ lit '' Sizes: 1080'' @ [0x00D7] @ lit ''1080 (IG), 1080'' @ [0x00D7]
        @ lit ''1920 (TikTok)'',
      [0x2022] @ lit '' Count: 8'',
      [0x2022] @ lit '' Overlay: headline + optional quote'',
      lit ''Say '' @ [0x201C] @ lit ''create batch'' @ [0x201D]
        @ lit '' to enqueue a mock job (we'' @ [0x2019] @ lit ''ll wire the backend next).'']"

definition planLines :: "jsstring \<Rightarrow> jsstring list" where
  "planLines text = (if looksLikeBatch text then plan else [])"

text \<open>
  \<^verbatim>\<open>
  const reply = [acknowledgement, ...(planLines.length ? ["", ...planLines] : [])].join("\n");
  \<close>
\<close>

definition reply :: "jsstring \<Rightarrow> jsstring" where
  "reply text =
     join [0x000A]
       ([acknowledgement text]
        @ (if length (planLines text) \<noteq> 0 then [[]] @ planLines text else []))"

text \<open>
  \<^verbatim>\<open>mockAgentReply\<close>: the message is built at once (identifier and time stamp are taken
  now) and a timer is set that will append it.
\<close>

definition mockAgentReply :: "env \<Rightarrow> jsstring \<Rightarrow> mock_app \<Rightarrow> mock_app" where
  "mockAgentReply env text s =
     (let agentMsg = \<lparr>id_msg = randomUUID env (uuid_calls s), role = Agent,
                      text_msg = Str (reply text), createdAt = Date_now env (now_calls s)\<rparr>
      in s\<lparr>uuid_calls := uuid_calls s + 1, now_calls := now_calls s + 1,
            timers := timers s @ [agentMsg]\<rparr>)"

text \<open>
  \<^verbatim>\<open>
  function handleSend(e: FormEvent) {
    e.preventDefault();
    const text = input.trim();
    if (!text) return;
    const userMsg: Message = { id: crypto.randomUUID(), role: "user", text, createdAt: Date.now() };
    setMessages((prev) => [...prev, userMsg]);
    setInput("");
    mockAgentReply(text, setMessages);
  }
  \<close>
\<close>

definition handleSend_mock :: "env \<Rightarrow> mock_app \<Rightarrow> mock_app" where
  "handleSend_mock env s =
     (let text = trim (input s) in
      if text = [] then s
      else
        let userMsg = \<lparr>id_msg = randomUUID env (uuid_calls s), role = User,
                        text_msg = Str text, createdAt = Date_now env (now_calls s)\<rparr>
        in mockAgentReply env text
             (s\<lparr>messages := messages s @ [userMsg], input := [],
                uuid_calls := uuid_calls s + 1, now_calls := now_calls s + 1\<rparr>))"

text \<open>
  The oldest timer runs: \<^verbatim>\<open>setMessages((prev) => [...prev, agentMsg])\<close>.
\<close>

definition timeout :: "mock_app \<Rightarrow> mock_app" where
  "timeout s =
     (case timers s of
        [] \<Rightarrow> s
      | agentMsg # rest \<Rightarrow> s\<lparr>messages := messages s @ [agentMsg], timers := rest\<rparr>)"

datatype mock_event = Mock_UI ui_event | Timeout

fun mock_step :: "env \<Rightarrow> mock_app \<Rightarrow> mock_event \<Rightarrow> mock_app" where
  "mock_step env s (Mock_UI (Change v)) = onChange v s"
| "mock_step env s (Mock_UI Submit) = handleSend_mock env s"
| "mock_step env s (Mock_UI Render) = render s"
| "mock_step env s Timeout = timeout s"

definition mock_init :: "env \<Rightarrow> mock_app" where
  "mock_init env =
     \<lparr>messages = initial_messages env 0 0, input = [], uuid_calls = 1, now_calls = 1,
      timers = []\<rparr>"

definition mock_run :: "env \<Rightarrow> mock_event list \<Rightarrow> mock_app" where
  "mock_run env es = foldl (mock_step env) (mock_init env) es"

section \<open>The network variant (src/unnamed/part_000, second file)\<close>

text \<open>
  The request that \<^verbatim>\<open>fetch\<close> is called with. The body is the text that
  \<^verbatim>\<open>JSON.stringify\<close> makes of a value; the library call is kept as a constructor.
\<close>

datatype wire = JSON_stringify jsvalue

record request =
  url :: jsstring
  method_req :: jsstring
  headers :: "(jsstring \<times> jsstring) list"
  body :: wire

text \<open>
  A thrown error object with its \<^verbatim>\<open>name\<close> and \<^verbatim>\<open>message\<close>, and
  \<^verbatim>\<open>Error.prototype.toString\<close>.
\<close>

datatype js_error = Thrown (name: jsstring) (message: jsstring)

definition toString :: "js_error \<Rightarrow> jsstring" where
  "toString e =
     (if name e = [] then message e
      else if message e = [] then name e
      else name e @ lit '': '' @ message e)"

text \<open>
  How one exchange ends, as far as \<^verbatim>\<open>sendToBackend\<close> can see: the promise of
  \<^verbatim>\<open>fetch\<close> is rejected (transport failure), or a response arrives with a status and a
  body which \<^verbatim>\<open>res.json()\<close> either rejects or parses to a value.
\<close>

datatype fetch_outcome =
    Rejected js_error
  | Response nat "js_error + jsvalue"

text \<open>\<^verbatim>\<open>res.ok\<close>: the status is in the range 200 to 299.\<close>

definition ok :: "nat \<Rightarrow> bool" where
  "ok status = (200 \<le> status \<and> status \<le> 299)"

text \<open>
  Reading \<^verbatim>\<open>data.reply\<close>: a TypeError on \<^verbatim>\<open>null\<close> and \<^verbatim>\<open>undefined\<close> (the message is the
  engine's; V8's wording is used), the own property of an object or \<^verbatim>\<open>undefined\<close> when
  it has none, \<^verbatim>\<open>undefined\<close> on every other value. (An object is given by its
  properties, each key once.)
\<close>

definition reply_of_nullish :: js_error where
  "reply_of_nullish =
     Thrown (lit ''TypeError'')
       (lit ''Cannot read properties of null (reading '' @ [0x27] @ lit ''reply'' @ [0x27]
        @ lit '')'')"

fun get_reply :: "jsvalue \<Rightarrow> js_error + jsvalue" where
  "get_reply Null = Inl reply_of_nullish"
| "get_reply Undefined = Inl reply_of_nullish"
| "get_reply (Obj props) =
     Inr (case map_of props (lit ''reply'') of None \<Rightarrow> Undefined | Some v \<Rightarrow> v)"
| "get_reply v = Inr Undefined"

text \<open>The warning sign with its variation selector.\<close>

definition warning_marker :: jsstring where
  "warning_marker = [0x26A0, 0xFE0F]"

text \<open>
  \<^verbatim>\<open>
  `<warning marker> Error: ${err.message || err}`
  \<close>
  An empty message is falsy, and then the error object itself is converted to a string.
\<close>

definition error_text :: "js_error \<Rightarrow> jsstring" where
  "error_text err =
     warning_marker @ lit '' Error: '' @ (if message err \<noteq> [] then message err else toString err)"

text \<open>
  \<open>inflight\<close> holds the requests whose exchange has not ended yet, in the order of
  their submission; they may end in any order.
\<close>

record net_app = app_state +
  inflight :: "request list"

text \<open>
  \<^verbatim>\<open>sendToBackend\<close> up to its first \<^verbatim>\<open>await\<close>: the call of \<^verbatim>\<open>fetch\<close>.
\<close>

definition chat_request :: "jsstring \<Rightarrow> request" where
  "chat_request text =
     \<lparr>url = lit ''http://127.0.0.1:8000/chat/turn'',
      method_req = lit ''POST'',
      headers = [(lit ''Content-Type'', lit ''application/json'')],
      body = JSON_stringify (Obj [(lit ''message'', Str text)])\<rparr>"

definition sendToBackend :: "jsstring \<Rightarrow> net_app \<Rightarrow> net_app" where
  "sendToBackend text s = s\<lparr>inflight := inflight s @ [chat_request text]\<rparr>"

text \<open>
  \<^verbatim>\<open>handleSend\<close> of this variant differs in its last line only:
  \<^verbatim>\<open>sendToBackend(text, setMessages)\<close>.
\<close>

definition handleSend_net :: "env \<Rightarrow> net_app \<Rightarrow> net_app" where
  "handleSend_net env s =
     (let text = trim (input s) in
      if text = [] then s
      else
        let userMsg = \<lparr>id_msg = randomUUID env (uuid_calls s), role = User,
                        text_msg = Str text, createdAt = Date_now env (now_calls s)\<rparr>
        in sendToBackend text
             (s\<lparr>messages := messages s @ [userMsg], input := [],
                uuid_calls := uuid_calls s + 1, now_calls := now_calls s + 1\<rparr>))"

text \<open>
  The \<^verbatim>\<open>catch\<close> block: the error message is built and appended.
  \<^verbatim>\<open>
  const errorMsg: Message = { id: crypto.randomUUID(), role: "agent",
                              text: `<warning marker> Error: ${err.message || err}`,
                              createdAt: Date.now() };
  setMessages((prev) => [...prev, errorMsg]);
  \<close>
\<close>

definition catch_block :: "env \<Rightarrow> js_error \<Rightarrow> net_app \<Rightarrow> net_app" where
  "catch_block env err s =
     (let errorMsg = \<lparr>id_msg = randomUUID env (uuid_calls s), role = Agent,
                      text_msg = Str (error_text err), createdAt = Date_now env (now_calls s)\<rparr>
      in s\<lparr>messages := messages s @ [errorMsg],
            uuid_calls := uuid_calls s + 1, now_calls := now_calls s + 1\<rparr>)"

text \<open>
  The \<^verbatim>\<open>try\<close> block after \<^verbatim>\<open>await fetch(...)\<close>, given how the exchange ended.
  \<^verbatim>\<open>
  if (!res.ok) { throw new Error(`HTTP ${res.status}`); }
  const data = await res.json();
  const agentMsg: Message = { id: crypto.randomUUID(), role: "agent", text: data.reply,
                              createdAt: Date.now() };
  setMessages((prev) => [...prev, agentMsg]);
  \<close>
  The object literal is evaluated field by field: when \<^verbatim>\<open>data.reply\<close> throws,
  \<^verbatim>\<open>crypto.randomUUID()\<close> has been called already and \<^verbatim>\<open>Date.now()\<close> has not.
\<close>

definition try_block :: "env \<Rightarrow> fetch_outcome \<Rightarrow> net_app \<Rightarrow> net_app" where
  "try_block env outcome s =
     (case outcome of
        Rejected err \<Rightarrow> catch_block env err s
      | Response status json \<Rightarrow>
          if \<not> ok status
          then catch_block env (Thrown (lit ''Error'') (lit ''HTTP '' @ decimal status)) s
          else (case json of
                  Inl err \<Rightarrow> catch_block env err s
                | Inr data \<Rightarrow>
                    (case get_reply data of
                       Inl err \<Rightarrow> catch_block env err (s\<lparr>uuid_calls := uuid_calls s + 1\<rparr>)
                     | Inr data_reply \<Rightarrow>
                         let agentMsg =
                               \<lparr>id_msg = randomUUID env (uuid_calls s), role = Agent,
                                text_msg = data_reply, createdAt = Date_now env (now_calls s)\<rparr>
                         in s\<lparr>messages := messages s @ [agentMsg],
                               uuid_calls := uuid_calls s + 1,
                               now_calls := now_calls s + 1\<rparr>)))"

text \<open>
  The exchange of the \<open>i\<close>-th request in flight ends with \<open>outcome\<close>, and
  \<^verbatim>\<open>sendToBackend\<close> runs on from its \<^verbatim>\<open>await\<close>.
\<close>

definition settle :: "env \<Rightarrow> nat \<Rightarrow> fetch_outcome \<Rightarrow> net_app \<Rightarrow> net_app" where
  "settle env i outcome s =
     (if i < length (inflight s)
      then try_block env outcome
             (s\<lparr>inflight := take i (inflight s) @ drop (Suc i) (inflight s)\<rparr>)
      else s)"

datatype net_event = Net_UI ui_event | Settled nat fetch_outcome

fun net_step :: "env \<Rightarrow> net_app \<Rightarrow> net_event \<Rightarrow> net_app" where
  "net_step env s (Net_UI (Change v)) = onChange v s"
| "net_step env s (Net_UI Submit) = handleSend_net env s"
| "net_step env s (Net_UI Render) = render s"
| "net_step env s (Settled i outcome) = settle env i outcome s"

definition net_init :: "env \<Rightarrow> net_app" where
  "net_init env =
     \<lparr>messages = initial_messages env 0 0, input = [], uuid_calls = 1, now_calls = 1,
      inflight = []\<rparr>"

definition net_run :: "env \<Rightarrow> net_event list \<Rightarrow> net_app" where
  "net_run env es = foldl (net_step env) (net_init env) es"

section \<open>Rendering the message list\<close>

text \<open>
  What \<^verbatim>\<open>ChatBubble\<close> returns: the class of the list item, the class of the inner
  \<^verbatim>\<open>div\<close>, and the text shown in it. The two variants differ in the colours only.
\<close>

record bubble =
  li_className :: jsstring
  div_className :: jsstring
  children :: jsvalue

definition ChatBubble_mock :: "Role \<Rightarrow> jsvalue \<Rightarrow> bubble" where
  "ChatBubble_mock r text =
     (let isUser = (r = User) in
      \<lparr>li_className = lit ''flex '' @ (if isUser then lit ''justify-end'' else lit ''justify-start''),
       div_className =
         join (lit '' '')
           [lit ''rounded-2xl px-4 py-2 max-w-[75%] whitespace-pre-wrap leading-relaxed'',
            if isUser then lit ''bg-gray-900 text-white'' else lit ''bg-gray-100 text-gray-900''],
       children = text\<rparr>)"

definition ChatBubble_net :: "Role \<Rightarrow> jsvalue \<Rightarrow> bubble" where
  "ChatBubble_net r text =
     (let isUser = (r = User) in
      \<lparr>li_className = lit ''flex '' @ (if isUser then lit ''justify-end'' else lit ''justify-start''),
       div_className =
         join (lit '' '')
           [lit ''rounded-2xl px-4 py-2 max-w-[75%] whitespace-pre-wrap break-words leading-relaxed'',
            if isUser then lit ''bg-[#2b333b] text-white'' else lit ''bg-[#444654] text-gray-100''],
       children = text\<rparr>)"

text \<open>
  \<^verbatim>\<open>
  {messages.map((m) => (<ChatBubble key={m.id} role={m.role} text={m.text} />))}
  \<close>
  The children of the list, top to bottom, each with its key.
\<close>

definition message_list ::
  "(Role \<Rightarrow> jsvalue \<Rightarrow> bubble) \<Rightarrow> Message list \<Rightarrow> (jsstring \<times> bubble) list" where
  "message_list ChatBubble ms = map (\<lambda>m. (id_msg m, ChatBubble (role m) (text_msg m))) ms"

section \<open>Invariants of a session\<close>

text \<open>
  The identifiers of \<open>ms\<close> are pairwise distinct and each is the result of one of the
  first \<open>n\<close> calls of \<^verbatim>\<open>crypto.randomUUID()\<close>.
\<close>

definition ids_fresh :: "env \<Rightarrow> nat \<Rightarrow> Message list \<Rightarrow> bool" where
  "ids_fresh env n ms =
     (distinct (map id_msg ms) \<and> set (map id_msg ms) \<subseteq> randomUUID env ` {..<n})"

text \<open>The number of messages of a role.\<close>

definition count_role :: "Role \<Rightarrow> Message list \<Rightarrow> nat" where
  "count_role r ms = length (filter (\<lambda>m. role m = r) ms)"

text \<open>
  Replies are accounted for: the agent's messages in the store and the replies still
  pending are together one more (the greeting) than the user's messages.
\<close>

definition mock_balanced :: "mock_app \<Rightarrow> bool" where
  "mock_balanced s =
     (list_all (\<lambda>m. role m = Agent) (timers s)
      \<and> count_role Agent (messages s) + length (timers s) = Suc (count_role User (messages s)))"

definition net_balanced :: "net_app \<Rightarrow> bool" where
  "net_balanced s =
     (count_role Agent (messages s) + length (inflight s) = Suc (count_role User (messages s)))"

section \<open>Sample data\<close>

text \<open>An environment whose identifiers are pairwise distinct, and two states to run.\<close>

definition sample_env :: env where
  "sample_env = \<lparr>randomUUID = (\<lambda>n. replicate (Suc n) 0x61), Date_now = (\<lambda>n. 1000 + int n)\<rparr>"

definition sample_mock :: mock_app where
  "sample_mock = (mock_init sample_env)\<lparr>input := lit '' make 2 posters ''\<rparr>"

definition sample_net :: net_app where
  "sample_net = (net_init sample_env)\<lparr>input := lit '' hello ''\<rparr>"

definition sample_root :: documentElement where
  "sample_root = \<lparr>classList = [lit ''app''], colorScheme = lit ''light''\<rparr>"

section \<open>Theme synchronisation: what the listener does\<close>

lemma lit_dark_neq_light: "lit ''dark'' \<noteq> lit ''light''"
  by (simp add: lit_def)

lemma applyTheme_dark:
  "lit ''dark'' \<in> set (classList (applyTheme (lit ''dark'') el))
   \<and> colorScheme (applyTheme (lit ''dark'') el) = lit ''dark''"
  by (simp add: applyTheme_def classList_add_def)

lemma applyTheme_light:
  "lit ''dark'' \<notin> set (classList (applyTheme (lit ''light'') el))
   \<and> colorScheme (applyTheme (lit ''light'') el) = lit ''light''"
  using lit_dark_neq_light by (simp add: applyTheme_def classList_remove_def)

text \<open>
  C8. A storage event for the key \<^verbatim>\<open>theme\<close> with the new value \<^verbatim>\<open>dark\<close> makes the listener
  apply the dark theme to the document element (the class \<^verbatim>\<open>dark\<close> is set and the colour
  scheme is \<^verbatim>\<open>dark\<close>); with the new value \<^verbatim>\<open>light\<close> it applies the light theme (the class
  is gone and the colour scheme is \<^verbatim>\<open>light\<close>). The event changes the document element of
  the live page and leaves the state of \<^verbatim>\<open>App\<close> as it is: nothing is loaded again.
\<close>

theorem theme_listener_applies:
  assumes "key e = Some (lit ''theme'')"
  shows "(newValue e = Some (lit ''dark'') \<longrightarrow>
            onStorage e el = applyTheme (lit ''dark'') el
            \<and> lit ''dark'' \<in> set (classList (onStorage e el))
            \<and> colorScheme (onStorage e el) = lit ''dark'')
         \<and> (newValue e = Some (lit ''light'') \<longrightarrow>
            onStorage e el = applyTheme (lit ''light'') el
            \<and> lit ''dark'' \<notin> set (classList (onStorage e el))
            \<and> colorScheme (onStorage e el) = lit ''light'')
         \<and> root_element (storage_event e p) = onStorage e (root_element p)
         \<and> app (storage_event e p) = app p"
  using assms applyTheme_dark[of el] applyTheme_light[of el]
  by (simp add: onStorage_def storage_event_def)

theorem theme_listener_applies_witness:
  "key \<lparr>key = Some (lit ''theme''), newValue = Some (lit ''dark'')\<rparr> = Some (lit ''theme'')
   \<and> newValue \<lparr>key = Some (lit ''theme''), newValue = Some (lit ''dark'')\<rparr> = Some (lit ''dark'')
   \<and> classList (onStorage \<lparr>key = Some (lit ''theme''), newValue = Some (lit ''dark'')\<rparr> sample_root)
       = [lit ''app'', lit ''dark'']
   \<and> colorScheme (onStorage \<lparr>key = Some (lit ''theme''), newValue = Some (lit ''dark'')\<rparr> sample_root)
       = lit ''dark''
   \<and> newValue \<lparr>key = Some (lit ''theme''), newValue = Some (lit ''light'')\<rparr> = Some (lit ''light'')
   \<and> classList (onStorage \<lparr>key = Some (lit ''theme''), newValue = Some (lit ''light'')\<rparr>
         (sample_root\<lparr>classList := [lit ''dark'', lit ''app'']\<rparr>))
       = [lit ''app'']
   \<and> colorScheme (onStorage \<lparr>key = Some (lit ''theme''), newValue = Some (lit ''light'')\<rparr>
         (sample_root\<lparr>classList := [lit ''dark'', lit ''app'']\<rparr>))
       = lit ''light''"
  using theme_listener_applies
          [of "\<lparr>key = Some (lit ''theme''), newValue = Some (lit ''dark'')\<rparr>" sample_root
              "\<lparr>root_element = sample_root, app = sample_net\<rparr>"]
        theme_listener_applies
          [of "\<lparr>key = Some (lit ''theme''), newValue = Some (lit ''light'')\<rparr>"
              "sample_root\<lparr>classList := [lit ''dark'', lit ''app'']\<rparr>"
              "\<lparr>root_element = sample_root, app = sample_net\<rparr>"]
  by (simp add: applyTheme_def classList_add_def classList_remove_def sample_root_def lit_def)

text \<open>
  C10. A storage event whose key is not \<^verbatim>\<open>theme\<close>, or whose new value is neither \<^verbatim>\<open>dark\<close>
  nor \<^verbatim>\<open>light\<close>, leaves the document element, and the whole page, as it was.
\<close>

theorem other_storage_events_ignored:
  assumes "key e \<noteq> Some (lit ''theme'')
           \<or> (newValue e \<noteq> Some (lit ''dark'') \<and> newValue e \<noteq> Some (lit ''light''))"
  shows "onStorage e el = el \<and> storage_event e p = p"
  using assms by (auto simp add: onStorage_def storage_event_def split: option.splits)

theorem other_storage_events_ignored_witness:
  "key \<lparr>key = Some (lit ''lang''), newValue = Some (lit ''dark'')\<rparr> \<noteq> Some (lit ''theme'')
   \<and> onStorage \<lparr>key = Some (lit ''lang''), newValue = Some (lit ''dark'')\<rparr> sample_root = sample_root
   \<and> newValue \<lparr>key = Some (lit ''theme''), newValue = Some (lit ''Dark'')\<rparr> \<noteq> Some (lit ''dark'')
   \<and> newValue \<lparr>key = Some (lit ''theme''), newValue = Some (lit ''Dark'')\<rparr> \<noteq> Some (lit ''light'')
   \<and> onStorage \<lparr>key = Some (lit ''theme''), newValue = Some (lit ''Dark'')\<rparr> sample_root = sample_root
   \<and> onStorage \<lparr>key = Some (lit ''theme''), newValue = None\<rparr> sample_root = sample_root"
  using other_storage_events_ignored
          [of "\<lparr>key = Some (lit ''lang''), newValue = Some (lit ''dark'')\<rparr>" sample_root
              "\<lparr>root_element = sample_root, app = sample_net\<rparr>"]
        other_storage_events_ignored
          [of "\<lparr>key = Some (lit ''theme''), newValue = Some (lit ''Dark'')\<rparr>" sample_root
              "\<lparr>root_element = sample_root, app = sample_net\<rparr>"]
        other_storage_events_ignored
          [of "\<lparr>key = Some (lit ''theme''), newValue = None\<rparr>" sample_root
              "\<lparr>root_element = sample_root, app = sample_net\<rparr>"]
  by (simp add: lit_def)

section \<open>The composer\<close>

lemma trim_all_trimmable: "(\<forall>c\<in>set s. trimmable c) \<Longrightarrow> trim s = []"
proof -
  assume "\<forall>c\<in>set s. trimmable c"
  then have "dropWhile trimmable s = []" by simp
  then have "dropWhile trimmable (rev (dropWhile trimmable s)) = []"
    by (simp only: rev.simps dropWhile.simps)
  then show "trim s = []" by (simp only: trim_def rev.simps)
qed

lemma trim_empty_iff: "trim s = [] \<longleftrightarrow> (\<forall>c\<in>set s. trimmable c)"
proof
  assume e: "trim s = []"
  have "dropWhile trimmable s = []"
  proof (rule ccontr)
    assume ne: "dropWhile trimmable s \<noteq> []"
    then have "\<not> trimmable (hd (dropWhile trimmable s))" by (rule hd_dropWhile)
    moreover have "hd (dropWhile trimmable s) \<in> set (dropWhile trimmable s)"
      using ne by simp
    moreover from e have "\<forall>c\<in>set (dropWhile trimmable s). trimmable c"
      by (simp add: trim_def)
    ultimately show False by blast
  qed
  then show "\<forall>c\<in>set s. trimmable c" by simp
next
  assume "\<forall>c\<in>set s. trimmable c"
  then show "trim s = []" by (rule trim_all_trimmable)
qed

text \<open>
  C4. When the input is empty or holds nothing but white space (the code units that
  \<^verbatim>\<open>trim\<close> strips), submitting changes nothing in either variant: no message is appended,
  no timer is set and no request is sent, and the input keeps its contents.
\<close>

theorem empty_submission_noop:
  assumes "\<forall>c\<in>set (input s). trimmable c" and "\<forall>c\<in>set (input t). trimmable c"
  shows "handleSend_mock env s = s \<and> handleSend_net env t = t
         \<and> mock_step env s (Mock_UI Submit) = s \<and> net_step env t (Net_UI Submit) = t"
  using assms
  by (simp add: handleSend_mock_def handleSend_net_def trim_all_trimmable)

theorem empty_submission_noop_witness:
  "list_all trimmable (input (sample_mock\<lparr>input := [0x20, 0x09, 0x0A, 0xA0]\<rparr>))
   \<and> list_all trimmable (input (sample_net\<lparr>input := []\<rparr>))
   \<and> handleSend_mock sample_env (sample_mock\<lparr>input := [0x20, 0x09, 0x0A, 0xA0]\<rparr>)
       = sample_mock\<lparr>input := [0x20, 0x09, 0x0A, 0xA0]\<rparr>
   \<and> input (handleSend_mock sample_env (sample_mock\<lparr>input := [0x20, 0x09, 0x0A, 0xA0]\<rparr>))
       = [0x20, 0x09, 0x0A, 0xA0]
   \<and> handleSend_net sample_env (sample_net\<lparr>input := []\<rparr>) = sample_net\<lparr>input := []\<rparr>"
proof -
  have h1: "\<forall>c\<in>set (input (sample_mock\<lparr>input := [0x20, 0x09, 0x0A, 0xA0]\<rparr>)). trimmable c"
    by (simp add: trimmable_def WhiteSpace_def LineTerminator_def)
  have h2: "\<forall>c\<in>set (input (sample_net\<lparr>input := []\<rparr>)). trimmable c"
    by simp
  show ?thesis
    using h1 h2 empty_submission_noop [OF h1 h2, of sample_env] by (simp add: list_all_iff)
qed

section \<open>The shape of every step\<close>

lemma handleSend_mock_accepted:
  "trim (input s) \<noteq> [] \<Longrightarrow>
   handleSend_mock env s =
     s\<lparr>messages := messages s @
            [\<lparr>id_msg = randomUUID env (uuid_calls s), role = User,
              text_msg = Str (trim (input s)), createdAt = Date_now env (now_calls s)\<rparr>],
       input := [], uuid_calls := uuid_calls s + 2, now_calls := now_calls s + 2,
       timers := timers s @
            [\<lparr>id_msg = randomUUID env (uuid_calls s + 1), role = Agent,
              text_msg = Str (reply (trim (input s))),
              createdAt = Date_now env (now_calls s + 1)\<rparr>]\<rparr>"
  by (simp add: handleSend_mock_def mockAgentReply_def Let_def)

lemma handleSend_net_accepted:
  "trim (input s) \<noteq> [] \<Longrightarrow>
   handleSend_net env s =
     s\<lparr>messages := messages s @
            [\<lparr>id_msg = randomUUID env (uuid_calls s), role = User,
              text_msg = Str (trim (input s)), createdAt = Date_now env (now_calls s)\<rparr>],
       input := [], uuid_calls := uuid_calls s + 1, now_calls := now_calls s + 1,
       inflight := inflight s @ [chat_request (trim (input s))]\<rparr>"
  by (simp add: handleSend_net_def sendToBackend_def Let_def)

lemma handleSend_mock_rejected: "trim (input s) = [] \<Longrightarrow> handleSend_mock env s = s"
  by (simp add: handleSend_mock_def)

lemma handleSend_net_rejected: "trim (input s) = [] \<Longrightarrow> handleSend_net env s = s"
  by (simp add: handleSend_net_def)

lemma timeout_Cons:
  "timers s = a # rest \<Longrightarrow> timeout s = s\<lparr>messages := messages s @ [a], timers := rest\<rparr>"
  by (simp add: timeout_def)

lemma timeout_Nil: "timers s = [] \<Longrightarrow> timeout s = s"
  by (simp add: timeout_def)

text \<open>The message that the end of an exchange appends.\<close>

lemma catch_block_eq:
  "catch_block env err s =
     s\<lparr>messages := messages s @
            [\<lparr>id_msg = randomUUID env (uuid_calls s), role = Agent,
              text_msg = Str (error_text err), createdAt = Date_now env (now_calls s)\<rparr>],
       uuid_calls := uuid_calls s + 1, now_calls := now_calls s + 1\<rparr>"
  by (simp add: catch_block_def Let_def)

lemma try_block_Rejected: "try_block env (Rejected err) s = catch_block env err s"
  by (simp add: try_block_def)

lemma try_block_bad_status:
  "\<not> ok status \<Longrightarrow>
   try_block env (Response status json) s =
     catch_block env (Thrown (lit ''Error'') (lit ''HTTP '' @ decimal status)) s"
  by (simp add: try_block_def)

lemma try_block_bad_json:
  "ok status \<Longrightarrow> try_block env (Response status (Inl err)) s = catch_block env err s"
  by (simp add: try_block_def)

lemma try_block_reply_throws:
  "ok status \<Longrightarrow> get_reply data = Inl err \<Longrightarrow>
   try_block env (Response status (Inr data)) s =
     catch_block env err (s\<lparr>uuid_calls := uuid_calls s + 1\<rparr>)"
  by (simp add: try_block_def)

lemma try_block_reply:
  "ok status \<Longrightarrow> get_reply data = Inr v \<Longrightarrow>
   try_block env (Response status (Inr data)) s =
     s\<lparr>messages := messages s @
            [\<lparr>id_msg = randomUUID env (uuid_calls s), role = Agent, text_msg = v,
              createdAt = Date_now env (now_calls s)\<rparr>],
       uuid_calls := uuid_calls s + 1, now_calls := now_calls s + 1\<rparr>"
  by (simp add: try_block_def Let_def)

lemma try_block_cases:
  "(\<exists>err. try_block env outcome s = catch_block env err s)
   \<or> (\<exists>err. try_block env outcome s = catch_block env err (s\<lparr>uuid_calls := uuid_calls s + 1\<rparr>))
   \<or> (\<exists>v. try_block env outcome s =
          s\<lparr>messages := messages s @
                 [\<lparr>id_msg = randomUUID env (uuid_calls s), role = Agent, text_msg = v,
                   createdAt = Date_now env (now_calls s)\<rparr>],
            uuid_calls := uuid_calls s + 1, now_calls := now_calls s + 1\<rparr>)"
proof (cases outcome)
  case (Rejected err)
  then show ?thesis using try_block_Rejected by blast
next
  case (Response status json)
  show ?thesis
  proof (cases "ok status")
    case False
    with Response show ?thesis using try_block_bad_status by blast
  next
    case True
    show ?thesis
    proof (cases json)
      case (Inl err)
      with True Response show ?thesis using try_block_bad_json by blast
    next
      case (Inr data)
      show ?thesis
      proof (cases "get_reply data")
        case (Inl err)
        with True Response \<open>json = Inr data\<close> show ?thesis
          using try_block_reply_throws by blast
      next
        case (Inr v)
        with True Response \<open>json = Inr data\<close> show ?thesis
          using try_block_reply by blast
      qed
    qed
  qed
qed

text \<open>One message of the agent's, with an identifier from a call not made before.\<close>

lemma try_block_appends:
  "\<exists>m k. messages (try_block env outcome s) = messages s @ [m]
         \<and> role m = Agent \<and> id_msg m = randomUUID env (uuid_calls s + k)
         \<and> uuid_calls (try_block env outcome s) = uuid_calls s + Suc k
         \<and> input (try_block env outcome s) = input s
         \<and> inflight (try_block env outcome s) = inflight s"
proof -
  consider (a) err where "try_block env outcome s = catch_block env err s"
    | (b) err where
        "try_block env outcome s = catch_block env err (s\<lparr>uuid_calls := uuid_calls s + 1\<rparr>)"
    | (c) v where
        "try_block env outcome s =
          s\<lparr>messages := messages s @
                 [\<lparr>id_msg = randomUUID env (uuid_calls s), role = Agent, text_msg = v,
                   createdAt = Date_now env (now_calls s)\<rparr>],
            uuid_calls := uuid_calls s + 1, now_calls := now_calls s + 1\<rparr>"
    using try_block_cases[of env outcome s] by blast
  then show ?thesis
  proof cases
    case a
    show ?thesis
      by (rule exI[where x = "\<lparr>id_msg = randomUUID env (uuid_calls s), role = Agent,
              text_msg = Str (error_text err), createdAt = Date_now env (now_calls s)\<rparr>"],
          rule exI[where x = 0]) (simp add: a catch_block_eq)
  next
    case b
    show ?thesis
      by (rule exI[where x = "\<lparr>id_msg = randomUUID env (uuid_calls s + 1), role = Agent,
              text_msg = Str (error_text err), createdAt = Date_now env (now_calls s)\<rparr>"],
          rule exI[where x = 1]) (simp add: b catch_block_eq)
  next
    case c
    show ?thesis
      by (rule exI[where x = "\<lparr>id_msg = randomUUID env (uuid_calls s), role = Agent,
              text_msg = v, createdAt = Date_now env (now_calls s)\<rparr>"],
          rule exI[where x = 0]) (simp add: c)
  qed
qed

lemma settle_appends:
  "i < length (inflight s) \<Longrightarrow>
   \<exists>m k. messages (settle env i outcome s) = messages s @ [m]
         \<and> role m = Agent \<and> id_msg m = randomUUID env (uuid_calls s + k)
         \<and> uuid_calls (settle env i outcome s) = uuid_calls s + Suc k
         \<and> input (settle env i outcome s) = input s
         \<and> inflight (settle env i outcome s) = take i (inflight s) @ drop (Suc i) (inflight s)"
  using try_block_appends
          [of env outcome "s\<lparr>inflight := take i (inflight s) @ drop (Suc i) (inflight s)\<rparr>"]
  by (simp add: settle_def)

lemma settle_out_of_range: "\<not> i < length (inflight s) \<Longrightarrow> settle env i outcome s = s"
  by (simp add: settle_def)

section \<open>The store only grows at its end\<close>

lemma mock_step_messages:
  "messages (mock_step env s e) = messages s
   \<or> (\<exists>m. messages (mock_step env s e) = messages s @ [m])"
proof (cases e)
  case (Mock_UI u)
  show ?thesis
  proof (cases u)
    case (Change v)
    with Mock_UI show ?thesis by (simp add: onChange_def)
  next
    case Submit
    show ?thesis
    proof (cases "trim (input s) = []")
      case True
      with Mock_UI Submit show ?thesis by (simp add: handleSend_mock_rejected)
    next
      case False
      with Mock_UI Submit show ?thesis by (simp add: handleSend_mock_accepted)
    qed
  next
    case Render
    with Mock_UI show ?thesis by (simp add: render_def)
  qed
next
  case Timeout
  then show ?thesis by (cases "timers s") (simp_all add: timeout_def)
qed

lemma net_step_messages:
  "messages (net_step env s e) = messages s
   \<or> (\<exists>m. messages (net_step env s e) = messages s @ [m])"
proof (cases e)
  case (Net_UI u)
  show ?thesis
  proof (cases u)
    case (Change v)
    with Net_UI show ?thesis by (simp add: onChange_def)
  next
    case Submit
    show ?thesis
    proof (cases "trim (input s) = []")
      case True
      with Net_UI Submit show ?thesis by (simp add: handleSend_net_rejected)
    next
      case False
      with Net_UI Submit show ?thesis by (simp add: handleSend_net_accepted)
    qed
  next
    case Render
    with Net_UI show ?thesis by (simp add: render_def)
  qed
next
  case (Settled i outcome)
  show ?thesis
  proof (cases "i < length (inflight s)")
    case True
    from settle_appends[OF True, of env outcome] Settled show ?thesis by auto
  next
    case False
    with Settled show ?thesis by (simp add: settle_out_of_range)
  qed
qed

lemma mock_steps_prefix: "prefix (messages s) (messages (foldl (mock_step env) s es))"
proof (induction es arbitrary: s)
  case Nil
  show ?case by simp
next
  case (Cons e es)
  have "prefix (messages s) (messages (mock_step env s e))"
    using mock_step_messages[of env s e] by auto
  also have "prefix \<dots> (messages (foldl (mock_step env) (mock_step env s e) es))"
    by (rule Cons.IH)
  finally show ?case by simp
qed

lemma net_steps_prefix: "prefix (messages s) (messages (foldl (net_step env) s es))"
proof (induction es arbitrary: s)
  case Nil
  show ?case by simp
next
  case (Cons e es)
  have "prefix (messages s) (messages (net_step env s e))"
    using net_step_messages[of env s e] by auto
  also have "prefix \<dots> (messages (foldl (net_step env) (net_step env s e) es))"
    by (rule Cons.IH)
  finally show ?case by simp
qed

lemma message_list_snoc:
  "message_list C (ms @ [m]) = message_list C ms @ [(id_msg m, C (role m) (text_msg m))]"
  by (simp add: message_list_def)

lemma message_list_prefix:
  "prefix ms ms' \<Longrightarrow> prefix (message_list C ms) (message_list C ms')"
  by (auto simp add: message_list_def prefix_def)

text \<open>
  C6. Every step of either variant leaves the message store as it is or appends one
  message at its end. So over any sequence of steps the earlier store is a prefix of the
  later one: every message stays at its index and keeps its contents, none is removed.
  The list on the screen is the store mapped in order, so a message appended to the
  store is the last bubble shown.
\<close>

theorem store_append_only:
  "(messages (mock_step env s e) = messages s
      \<or> (\<exists>m. messages (mock_step env s e) = messages s @ [m]))
   \<and> (messages (net_step env t e') = messages t
      \<or> (\<exists>m. messages (net_step env t e') = messages t @ [m]))
   \<and> prefix (messages s) (messages (foldl (mock_step env) s es))
   \<and> prefix (messages t) (messages (foldl (net_step env) t es'))
   \<and> prefix (message_list ChatBubble_mock (messages s))
        (message_list ChatBubble_mock (messages (foldl (mock_step env) s es)))
   \<and> prefix (message_list ChatBubble_net (messages t))
        (message_list ChatBubble_net (messages (foldl (net_step env) t es')))
   \<and> message_list C (ms @ [m']) = message_list C ms @ [(id_msg m', C (role m') (text_msg m'))]"
  using mock_step_messages[of env s e] net_step_messages[of env t e']
    mock_steps_prefix[of s env es] net_steps_prefix[of t env es']
    message_list_prefix message_list_snoc
  by blast

theorem store_append_only_witness:
  "prefix (messages sample_mock)
     (messages (foldl (mock_step sample_env) sample_mock [Mock_UI Submit, Timeout]))
   \<and> length (messages (foldl (mock_step sample_env) sample_mock [Mock_UI Submit, Timeout])) = 3
   \<and> prefix (messages sample_net)
     (messages (foldl (net_step sample_env) sample_net
        [Net_UI Submit, Settled 0 (Response 503 (Inl (Thrown [] [])))]))
   \<and> length (messages (foldl (net_step sample_env) sample_net
        [Net_UI Submit, Settled 0 (Response 503 (Inl (Thrown [] [])))])) = 3"
proof -
  have "length (messages (foldl (mock_step sample_env) sample_mock [Mock_UI Submit, Timeout])) = 3"
    by code_simp
  moreover have "length (messages (foldl (net_step sample_env) sample_net
        [Net_UI Submit, Settled 0 (Response 503 (Inl (Thrown [] [])))])) = 3"
    by code_simp
  ultimately show ?thesis
    using store_append_only
      [of sample_env sample_mock "Mock_UI Submit" sample_net "Net_UI Submit"
          "[Mock_UI Submit, Timeout]"
          "[Net_UI Submit, Settled 0 (Response 503 (Inl (Thrown [] [])))]"
          ChatBubble_mock "[]" "hd (messages sample_mock)"]
    by blast
qed

lemma initial_messages_greeting:
  "length (initial_messages env u n) = 1
   \<and> role (hd (initial_messages env u n)) = Agent
   \<and> text_msg (hd (initial_messages env u n)) = Str greeting"
  by (simp add: initial_messages_def)

lemma prefix_hd: "prefix xs ys \<Longrightarrow> xs \<noteq> [] \<Longrightarrow> ys \<noteq> [] \<and> hd ys = hd xs"
  by (auto simp add: prefix_def)

lemma mock_run_starts:
  "messages (mock_run env es) \<noteq> []
   \<and> hd (messages (mock_run env es)) = hd (initial_messages env 0 0)"
proof -
  have "prefix (messages (mock_init env)) (messages (mock_run env es))"
    unfolding mock_run_def by (rule mock_steps_prefix)
  moreover have "messages (mock_init env) = initial_messages env 0 0"
    by (simp add: mock_init_def)
  moreover have "initial_messages env 0 0 \<noteq> []"
    by (simp add: initial_messages_def)
  ultimately show ?thesis using prefix_hd by metis
qed

lemma net_run_starts:
  "messages (net_run env es) \<noteq> []
   \<and> hd (messages (net_run env es)) = hd (initial_messages env 0 0)"
proof -
  have "prefix (messages (net_init env)) (messages (net_run env es))"
    unfolding net_run_def by (rule net_steps_prefix)
  moreover have "messages (net_init env) = initial_messages env 0 0"
    by (simp add: net_init_def)
  moreover have "initial_messages env 0 0 \<noteq> []"
    by (simp add: initial_messages_def)
  ultimately show ?thesis using prefix_hd by metis
qed

text \<open>
  C9. Both variants start with a store of exactly one message, the greeting, whose role
  is the agent's. In every state that a sequence of events reaches from there, the store
  is not empty and its first message is still the greeting.
\<close>

theorem store_starts_with_greeting:
  "messages (mock_init env) = initial_messages env 0 0
   \<and> messages (net_init env) = initial_messages env 0 0
   \<and> length (initial_messages env 0 0) = 1
   \<and> role (hd (initial_messages env 0 0)) = Agent
   \<and> text_msg (hd (initial_messages env 0 0)) = Str greeting
   \<and> messages (mock_run env es) \<noteq> []
   \<and> hd (messages (mock_run env es)) = hd (initial_messages env 0 0)
   \<and> role (hd (messages (mock_run env es))) = Agent
   \<and> messages (net_run env es') \<noteq> []
   \<and> hd (messages (net_run env es')) = hd (initial_messages env 0 0)
   \<and> role (hd (messages (net_run env es'))) = Agent"
  using mock_run_starts[of env es] net_run_starts[of env es']
    initial_messages_greeting[of env 0 0]
  by (simp add: mock_init_def net_init_def)


theorem store_starts_with_greeting_witness:
  "role (hd (messages (mock_run sample_env [Mock_UI (Change (lit ''hi'')), Mock_UI Submit, Timeout])))
     = Agent
   \<and> length (messages (mock_run sample_env [Mock_UI (Change (lit ''hi'')), Mock_UI Submit, Timeout]))
     = 3
   \<and> role (hd (messages (net_run sample_env [Net_UI (Change (lit ''hi'')), Net_UI Submit])))
     = Agent"
proof -
  have "length (messages (mock_run sample_env [Mock_UI (Change (lit ''hi'')), Mock_UI Submit, Timeout]))
     = 3"
    by code_simp
  then show ?thesis
    using store_starts_with_greeting
      [of sample_env "[Mock_UI (Change (lit ''hi'')), Mock_UI Submit, Timeout]"
          "[Net_UI (Change (lit ''hi'')), Net_UI Submit]"]
    by blast
qed

section \<open>Identifiers\<close>

lemma ids_fresh_mono: "ids_fresh env n ms \<Longrightarrow> n \<le> n' \<Longrightarrow> ids_fresh env n' ms"
  by (auto simp add: ids_fresh_def)

lemma fresh_not_in_image:
  "inj f \<Longrightarrow> (n::nat) \<le> k \<Longrightarrow> f k \<notin> f ` {..<n}"
  by (auto dest: injD)

lemma ids_fresh_snoc:
  assumes "inj (randomUUID env)" and "ids_fresh env n ms"
    and "id_msg m = randomUUID env (n + k)"
  shows "ids_fresh env (n + Suc k) (ms @ [m])"
proof -
  have "randomUUID env (n + k) \<notin> randomUUID env ` {..<n}"
    using assms(1) by (rule fresh_not_in_image) simp
  with assms(2,3) show ?thesis
    by (auto simp add: ids_fresh_def)
qed

lemma ids_fresh_swap:
  "ids_fresh env n (ms @ a # rest) \<Longrightarrow> ids_fresh env n ((ms @ [a]) @ rest)"
  by simp

lemma ids_fresh_insert:
  assumes "inj (randomUUID env)" and "ids_fresh env n (ms @ ts)"
    and "id_msg m = randomUUID env (n + k)"
  shows "ids_fresh env (n + Suc k) ((ms @ [m]) @ ts)"
proof -
  have "randomUUID env (n + k) \<notin> randomUUID env ` {..<n}"
    using assms(1) by (rule fresh_not_in_image) simp
  with assms(2,3) show ?thesis
    by (auto simp add: ids_fresh_def)
qed

lemma mock_step_fresh:
  assumes inj: "inj (randomUUID env)"
    and inv: "ids_fresh env (uuid_calls s) (messages s @ timers s)"
  shows "ids_fresh env (uuid_calls (mock_step env s e))
           (messages (mock_step env s e) @ timers (mock_step env s e))"
proof (cases e)
  case (Mock_UI u)
  show ?thesis
  proof (cases u)
    case (Change v)
    with Mock_UI inv show ?thesis by (simp add: onChange_def)
  next
    case Submit
    show ?thesis
    proof (cases "trim (input s) = []")
      case True
      with Mock_UI Submit inv show ?thesis by (simp add: handleSend_mock_rejected)
    next
      case False
      let ?u = "\<lparr>id_msg = randomUUID env (uuid_calls s), role = User,
                 text_msg = Str (trim (input s)), createdAt = Date_now env (now_calls s)\<rparr>"
      let ?a = "\<lparr>id_msg = randomUUID env (uuid_calls s + 1), role = Agent,
                 text_msg = Str (reply (trim (input s))),
                 createdAt = Date_now env (now_calls s + 1)\<rparr>"
      have "ids_fresh env (uuid_calls s + Suc 0) ((messages s @ [?u]) @ timers s)"
        using inj inv by (rule ids_fresh_insert) simp
      then have "ids_fresh env (uuid_calls s + 1) (messages s @ [?u] @ timers s)"
        by simp
      then have "ids_fresh env (uuid_calls s + 1 + Suc 0) ((messages s @ [?u] @ timers s) @ [?a])"
        using inj by (intro ids_fresh_snoc) simp_all
      then show ?thesis
        using Mock_UI Submit False by (simp add: handleSend_mock_accepted)
    qed
  next
    case Render
    with Mock_UI show ?thesis
      using ids_fresh_mono[OF inv, of "Suc (uuid_calls s)"] by (simp add: render_def)
  qed
next
  case Timeout
  show ?thesis
  proof (cases "timers s")
    case Nil
    with Timeout inv show ?thesis by (simp add: timeout_def)
  next
    case (Cons a rest)
    with Timeout inv show ?thesis by (simp add: timeout_def)
  qed
qed

lemma net_step_fresh:
  assumes inj: "inj (randomUUID env)"
    and inv: "ids_fresh env (uuid_calls s) (messages s)"
  shows "ids_fresh env (uuid_calls (net_step env s e)) (messages (net_step env s e))"
proof (cases e)
  case (Net_UI u)
  show ?thesis
  proof (cases u)
    case (Change v)
    with Net_UI inv show ?thesis by (simp add: onChange_def)
  next
    case Submit
    show ?thesis
    proof (cases "trim (input s) = []")
      case True
      with Net_UI Submit inv show ?thesis by (simp add: handleSend_net_rejected)
    next
      case False
      let ?u = "\<lparr>id_msg = randomUUID env (uuid_calls s), role = User,
                 text_msg = Str (trim (input s)), createdAt = Date_now env (now_calls s)\<rparr>"
      have "ids_fresh env (uuid_calls s + Suc 0) (messages s @ [?u])"
        using inj inv by (rule ids_fresh_snoc) simp
      then show ?thesis
        using Net_UI Submit False by (simp add: handleSend_net_accepted)
    qed
  next
    case Render
    with Net_UI show ?thesis
      using ids_fresh_mono[OF inv, of "Suc (uuid_calls s)"] by (simp add: render_def)
  qed
next
  case (Settled i outcome)
  show ?thesis
  proof (cases "i < length (inflight s)")
    case True
    from settle_appends[OF True, of env outcome]
    obtain m k where m: "messages (settle env i outcome s) = messages s @ [m]"
      "id_msg m = randomUUID env (uuid_calls s + k)"
      "uuid_calls (settle env i outcome s) = uuid_calls s + Suc k"
      by blast
    have "ids_fresh env (uuid_calls s + Suc k) (messages s @ [m])"
      using inj inv m(2) by (rule ids_fresh_snoc)
    with m Settled show ?thesis by simp
  next
    case False
    with Settled inv show ?thesis by (simp add: settle_out_of_range)
  qed
qed

lemma mock_steps_fresh:
  assumes "inj (randomUUID env)"
  shows "ids_fresh env (uuid_calls s) (messages s @ timers s) \<Longrightarrow>
         ids_fresh env (uuid_calls (foldl (mock_step env) s es))
           (messages (foldl (mock_step env) s es) @ timers (foldl (mock_step env) s es))"
proof (induction es arbitrary: s)
  case Nil
  then show ?case by simp
next
  case (Cons e es)
  from mock_step_fresh[OF assms Cons.prems, of e] show ?case
    using Cons.IH by simp
qed

lemma net_steps_fresh:
  assumes "inj (randomUUID env)"
  shows "ids_fresh env (uuid_calls s) (messages s) \<Longrightarrow>
         ids_fresh env (uuid_calls (foldl (net_step env) s es))
           (messages (foldl (net_step env) s es))"
proof (induction es arbitrary: s)
  case Nil
  then show ?case by simp
next
  case (Cons e es)
  from net_step_fresh[OF assms Cons.prems, of e] show ?case
    using Cons.IH by simp
qed

lemma initial_fresh: "ids_fresh env 1 (initial_messages env 0 0)"
  by (simp add: ids_fresh_def initial_messages_def)

text \<open>
  C7. When \<^verbatim>\<open>crypto.randomUUID()\<close> never returns the same identifier twice, the
  identifiers of the messages of a session are pairwise distinct in every reachable
  state of either variant: the greeting, the user's messages, the agent's replies and the
  error messages, and in the mock variant also the replies whose timers have not run.
\<close>

theorem identifiers_unique:
  assumes "inj (randomUUID env)"
  shows "distinct (map id_msg (messages (mock_run env es) @ timers (mock_run env es)))
         \<and> distinct (map id_msg (messages (mock_run env es)))
         \<and> distinct (map id_msg (messages (net_run env es')))"
proof -
  have "ids_fresh env (uuid_calls (mock_init env)) (messages (mock_init env) @ timers (mock_init env))"
    using initial_fresh[of env] by (simp add: mock_init_def)
  from mock_steps_fresh[OF assms this, of es]
  have a: "distinct (map id_msg (messages (mock_run env es) @ timers (mock_run env es)))"
    by (simp only: ids_fresh_def mock_run_def)
  have "ids_fresh env (uuid_calls (net_init env)) (messages (net_init env))"
    using initial_fresh[of env] by (simp add: net_init_def)
  from net_steps_fresh[OF assms this, of es']
  have b: "distinct (map id_msg (messages (net_run env es')))"
    by (simp only: ids_fresh_def net_run_def)
  from a b show ?thesis by simp
qed

lemma sample_env_inj: "inj (randomUUID sample_env)"
proof (rule injI)
  fix x y :: nat
  assume "randomUUID sample_env x = randomUUID sample_env y"
  then have "length (replicate (Suc x) (0x61 :: code_unit)) = length (replicate (Suc y) (0x61 :: code_unit))"
    by (simp add: sample_env_def)
  then show "x = y" by simp
qed

theorem identifiers_unique_witness:
  "map id_msg (messages (mock_run sample_env
       [Mock_UI (Change (lit ''hi'')), Mock_UI Submit, Mock_UI Render, Timeout]))
     = [lit ''a'', lit ''aa'', lit ''aaa'']
   \<and> distinct (map id_msg (messages (mock_run sample_env
       [Mock_UI (Change (lit ''hi'')), Mock_UI Submit, Mock_UI Render, Timeout])))
   \<and> distinct (map id_msg (messages (net_run sample_env
       [Net_UI (Change (lit ''hi'')), Net_UI Submit, Settled 0 (Response 200 (Inr Null))])))"
proof -
  have "map id_msg (messages (mock_run sample_env
       [Mock_UI (Change (lit ''hi'')), Mock_UI Submit, Mock_UI Render, Timeout]))
     = [lit ''a'', lit ''aa'', lit ''aaa'']"
    by code_simp
  then show ?thesis
    using identifiers_unique [OF sample_env_inj,
      of "[Mock_UI (Change (lit ''hi'')), Mock_UI Submit, Mock_UI Render, Timeout]"
         "[Net_UI (Change (lit ''hi'')), Net_UI Submit, Settled 0 (Response 200 (Inr Null))]"]
    by blast
qed

section \<open>One submission, one reply\<close>

lemma count_role_snoc:
  "count_role r (ms @ [m]) = count_role r ms + (if role m = r then 1 else 0)"
  by (simp add: count_role_def)

lemma timeouts_drain:
  "timers s = ts \<Longrightarrow>
   foldl (mock_step env) s (replicate (length ts) Timeout)
     = s\<lparr>messages := messages s @ ts, timers := []\<rparr>"
proof (induction ts arbitrary: s)
  case Nil
  then show ?case by simp
next
  case (Cons a rest)
  have "timers (timeout s) = rest"
    using Cons.prems by (simp add: timeout_def)
  from Cons.IH[OF this] Cons.prems show ?case
    by (simp add: timeout_def)
qed

lemma mock_step_balanced:
  assumes "mock_balanced s"
  shows "mock_balanced (mock_step env s e)"
proof (cases e)
  case (Mock_UI u)
  show ?thesis
  proof (cases u)
    case (Change v)
    with Mock_UI assms show ?thesis by (simp add: onChange_def mock_balanced_def)
  next
    case Submit
    show ?thesis
    proof (cases "trim (input s) = []")
      case True
      with Mock_UI Submit assms show ?thesis by (simp add: handleSend_mock_rejected)
    next
      case False
      with Mock_UI Submit assms show ?thesis
        by (simp add: handleSend_mock_accepted mock_balanced_def count_role_snoc)
    qed
  next
    case Render
    with Mock_UI assms show ?thesis by (simp add: render_def mock_balanced_def)
  qed
next
  case Timeout
  show ?thesis
  proof (cases "timers s")
    case Nil
    with Timeout assms show ?thesis by (simp add: timeout_def)
  next
    case (Cons a rest)
    with Timeout assms show ?thesis
      by (simp add: timeout_def mock_balanced_def count_role_snoc)
  qed
qed

lemma net_step_balanced:
  assumes "net_balanced s"
  shows "net_balanced (net_step env s e)"
proof (cases e)
  case (Net_UI u)
  show ?thesis
  proof (cases u)
    case (Change v)
    with Net_UI assms show ?thesis by (simp add: onChange_def net_balanced_def)
  next
    case Submit
    show ?thesis
    proof (cases "trim (input s) = []")
      case True
      with Net_UI Submit assms show ?thesis by (simp add: handleSend_net_rejected)
    next
      case False
      with Net_UI Submit assms show ?thesis
        by (simp add: handleSend_net_accepted net_balanced_def count_role_snoc)
    qed
  next
    case Render
    with Net_UI assms show ?thesis by (simp add: render_def net_balanced_def)
  qed
next
  case (Settled i outcome)
  show ?thesis
  proof (cases "i < length (inflight s)")
    case True
    from settle_appends[OF True, of env outcome]
    obtain m where m: "messages (settle env i outcome s) = messages s @ [m]" "role m = Agent"
      "inflight (settle env i outcome s) = take i (inflight s) @ drop (Suc i) (inflight s)"
      by blast
    have "length (take i (inflight s) @ drop (Suc i) (inflight s)) = length (inflight s) - 1"
      using True by simp
    with m True assms Settled show ?thesis
      by (simp add: net_balanced_def count_role_snoc)
  next
    case False
    with Settled assms show ?thesis by (simp add: settle_out_of_range)
  qed
qed

lemma mock_run_balanced: "mock_balanced (mock_run env es)"
proof -
  have "mock_balanced s \<Longrightarrow> mock_balanced (foldl (mock_step env) s es)" for s
    by (induction es arbitrary: s) (simp_all add: mock_step_balanced)
  moreover have "mock_balanced (mock_init env)"
    by (simp add: mock_balanced_def mock_init_def initial_messages_def count_role_def)
  ultimately show ?thesis by (simp add: mock_run_def)
qed

lemma net_run_balanced: "net_balanced (net_run env es)"
proof -
  have "net_balanced s \<Longrightarrow> net_balanced (foldl (net_step env) s es)" for s
    by (induction es arbitrary: s) (simp_all add: net_step_balanced)
  moreover have "net_balanced (net_init env)"
    by (simp add: net_balanced_def net_init_def initial_messages_def count_role_def)
  ultimately show ?thesis by (simp add: net_run_def)
qed

lemma mock_exchange:
  assumes "trim (input s) \<noteq> []"
  shows "\<exists>u a. handleSend_mock env s =
            s\<lparr>messages := messages s @ [u], input := [],
              uuid_calls := uuid_calls s + 2, now_calls := now_calls s + 2,
              timers := timers s @ [a]\<rparr>
          \<and> role u = User \<and> text_msg u = Str (trim (input s))
          \<and> role a = Agent \<and> text_msg a = Str (reply (trim (input s)))
          \<and> foldl (mock_step env) (handleSend_mock env s)
               (replicate (Suc (length (timers s))) Timeout) =
            s\<lparr>messages := messages s @ [u] @ timers s @ [a], input := [],
              uuid_calls := uuid_calls s + 2, now_calls := now_calls s + 2,
              timers := []\<rparr>"
proof -
  let ?u = "\<lparr>id_msg = randomUUID env (uuid_calls s), role = User,
             text_msg = Str (trim (input s)), createdAt = Date_now env (now_calls s)\<rparr>"
  let ?a = "\<lparr>id_msg = randomUUID env (uuid_calls s + 1), role = Agent,
             text_msg = Str (reply (trim (input s))),
             createdAt = Date_now env (now_calls s + 1)\<rparr>"
  have h: "handleSend_mock env s =
            s\<lparr>messages := messages s @ [?u], input := [],
              uuid_calls := uuid_calls s + 2, now_calls := now_calls s + 2,
              timers := timers s @ [?a]\<rparr>"
    using assms by (rule handleSend_mock_accepted)
  have t: "timers (handleSend_mock env s) = timers s @ [?a]"
    by (simp add: h)
  have "foldl (mock_step env) (handleSend_mock env s)
               (replicate (length (timers s @ [?a])) Timeout) =
        (handleSend_mock env s)\<lparr>messages := messages (handleSend_mock env s) @ (timers s @ [?a]),
           timers := []\<rparr>"
    using t by (rule timeouts_drain)
  then have d: "foldl (mock_step env) (handleSend_mock env s)
               (replicate (Suc (length (timers s))) Timeout) =
            s\<lparr>messages := messages s @ [?u] @ timers s @ [?a], input := [],
              uuid_calls := uuid_calls s + 2, now_calls := now_calls s + 2,
              timers := []\<rparr>"
    by (simp add: h)
  show ?thesis
    apply (rule exI[where x = ?u], rule exI[where x = ?a])
    apply (intro conjI)
         apply (rule h)
        apply simp
       apply simp
      apply simp
     apply simp
    apply (rule d)
    done
qed

lemma net_exchange:
  assumes "trim (input t) \<noteq> []"
  shows "\<exists>u. handleSend_net env t =
            t\<lparr>messages := messages t @ [u], input := [],
              uuid_calls := uuid_calls t + 1, now_calls := now_calls t + 1,
              inflight := inflight t @ [chat_request (trim (input t))]\<rparr>
          \<and> role u = User \<and> text_msg u = Str (trim (input t))
          \<and> (\<exists>m. messages (settle env (length (inflight t)) outcome (handleSend_net env t))
                    = messages t @ [u, m]
                \<and> role m = Agent
                \<and> input (settle env (length (inflight t)) outcome (handleSend_net env t)) = []
                \<and> inflight (settle env (length (inflight t)) outcome (handleSend_net env t))
                    = inflight t)"
proof -
  let ?u = "\<lparr>id_msg = randomUUID env (uuid_calls t), role = User,
             text_msg = Str (trim (input t)), createdAt = Date_now env (now_calls t)\<rparr>"
  let ?t' = "handleSend_net env t"
  have h: "?t' =
            t\<lparr>messages := messages t @ [?u], input := [],
              uuid_calls := uuid_calls t + 1, now_calls := now_calls t + 1,
              inflight := inflight t @ [chat_request (trim (input t))]\<rparr>"
    using assms by (rule handleSend_net_accepted)
  have "length (inflight t) < length (inflight ?t')"
    by (simp add: h)
  from settle_appends[OF this, of env outcome]
  obtain m where m: "messages (settle env (length (inflight t)) outcome ?t') = messages ?t' @ [m]"
    "role m = Agent"
    "input (settle env (length (inflight t)) outcome ?t') = input ?t'"
    "inflight (settle env (length (inflight t)) outcome ?t')
       = take (length (inflight t)) (inflight ?t') @ drop (Suc (length (inflight t))) (inflight ?t')"
    by blast
  have "messages (settle env (length (inflight t)) outcome ?t') = messages t @ [?u, m]"
    using m(1) by (simp add: h)
  moreover have "input (settle env (length (inflight t)) outcome ?t') = []"
    using m(3) by (simp add: h)
  moreover have "inflight (settle env (length (inflight t)) outcome ?t') = inflight t"
    using m(4) by (simp add: h)
  ultimately show ?thesis
    using m(2) h by (intro exI[where x = ?u]) auto
qed

text \<open>
  C1. When the input is not empty after trimming, \<^verbatim>\<open>handleSend\<close> appends exactly one
  message of the user's, with the trimmed text, and clears the input, in both variants.
  In the mock variant it sets exactly one timer, holding one message of the agent's with
  the reply; when the timers set so far have run, the store is the old one, the user's
  message, the replies that were pending, and this reply, once. In the network variant
  it sends exactly one request; when that exchange ends, however it ends, exactly one
  message of the agent's (the reply or the error) is appended after the user's and the
  request is no longer in flight. In every reachable state of either variant the agent's
  messages in the store and the replies still pending are together one more (the
  greeting) than the user's messages: no reply is lost and none comes twice.
\<close>

theorem accepted_submission:
  assumes "trim (input s) \<noteq> []" and "trim (input t) \<noteq> []"
  shows "(\<exists>u a. handleSend_mock env s =
            s\<lparr>messages := messages s @ [u], input := [],
              uuid_calls := uuid_calls s + 2, now_calls := now_calls s + 2,
              timers := timers s @ [a]\<rparr>
          \<and> role u = User \<and> text_msg u = Str (trim (input s))
          \<and> role a = Agent \<and> text_msg a = Str (reply (trim (input s)))
          \<and> foldl (mock_step env) (handleSend_mock env s)
               (replicate (Suc (length (timers s))) Timeout) =
            s\<lparr>messages := messages s @ [u] @ timers s @ [a], input := [],
              uuid_calls := uuid_calls s + 2, now_calls := now_calls s + 2,
              timers := []\<rparr>)
       \<and> (\<exists>u. handleSend_net env t =
            t\<lparr>messages := messages t @ [u], input := [],
              uuid_calls := uuid_calls t + 1, now_calls := now_calls t + 1,
              inflight := inflight t @ [chat_request (trim (input t))]\<rparr>
          \<and> role u = User \<and> text_msg u = Str (trim (input t))
          \<and> (\<exists>m. messages (settle env (length (inflight t)) outcome (handleSend_net env t))
                    = messages t @ [u, m]
                \<and> role m = Agent
                \<and> input (settle env (length (inflight t)) outcome (handleSend_net env t)) = []
                \<and> inflight (settle env (length (inflight t)) outcome (handleSend_net env t))
                    = inflight t))
       \<and> mock_balanced (mock_run env es)
       \<and> net_balanced (net_run env es')"
  using mock_exchange[OF assms(1), of env] net_exchange[OF assms(2), of env outcome]
    mock_run_balanced[of env es] net_run_balanced[of env es']
  by (intro conjI)


theorem accepted_submission_witness:
  "trim (input sample_mock) = lit ''make 2 posters''
   \<and> trim (input sample_mock) \<noteq> []
   \<and> trim (input sample_net) \<noteq> []
   \<and> input (handleSend_mock sample_env sample_mock) = []
   \<and> map role (messages (handleSend_mock sample_env sample_mock)) = [Agent, User]
   \<and> map role (messages (foldl (mock_step sample_env) (handleSend_mock sample_env sample_mock)
         [Timeout])) = [Agent, User, Agent]
   \<and> input (handleSend_net sample_env sample_net) = []
   \<and> map role (messages (handleSend_net sample_env sample_net)) = [Agent, User]
   \<and> map role (messages (settle sample_env 0 (Response 404 (Inl (Thrown [] [])))
         (handleSend_net sample_env sample_net))) = [Agent, User, Agent]
   \<and> mock_balanced (mock_run sample_env [Mock_UI (Change (lit ''hi'')), Mock_UI Submit])
   \<and> net_balanced (net_run sample_env [Net_UI (Change (lit ''hi'')), Net_UI Submit])"
proof -
  have t: "trim (input sample_mock) = lit ''make 2 posters''"
    by code_simp
  have h1: "trim (input sample_mock) \<noteq> []"
    by (simp add: t lit_def)
  have h2: "trim (input sample_net) \<noteq> []"
    by code_simp
  note inst = accepted_submission [OF h1 h2, of sample_env "Response 404 (Inl (Thrown [] []))"
      "[Mock_UI (Change (lit ''hi'')), Mock_UI Submit]"
      "[Net_UI (Change (lit ''hi'')), Net_UI Submit]"]
  have b: "mock_balanced (mock_run sample_env [Mock_UI (Change (lit ''hi'')), Mock_UI Submit])
     \<and> net_balanced (net_run sample_env [Net_UI (Change (lit ''hi'')), Net_UI Submit])"
    using inst by blast
  have c1: "input (handleSend_mock sample_env sample_mock) = []"
    by code_simp
  have c2: "map role (messages (handleSend_mock sample_env sample_mock)) = [Agent, User]"
    by code_simp
  have c3: "map role (messages (foldl (mock_step sample_env) (handleSend_mock sample_env sample_mock)
         [Timeout])) = [Agent, User, Agent]"
    by code_simp
  have c4: "input (handleSend_net sample_env sample_net) = []"
    by code_simp
  have c5: "map role (messages (handleSend_net sample_env sample_net)) = [Agent, User]"
    by code_simp
  have c6: "map role (messages (settle sample_env 0 (Response 404 (Inl (Thrown [] [])))
         (handleSend_net sample_env sample_net))) = [Agent, User, Agent]"
    by code_simp
  from t h1 h2 b c1 c2 c3 c4 c5 c6 show ?thesis by blast
qed

section \<open>The end of a network exchange\<close>

lemma settle_in_range:
  "i < length (inflight s) \<Longrightarrow>
   settle env i outcome s =
     try_block env outcome (s\<lparr>inflight := take i (inflight s) @ drop (Suc i) (inflight s)\<rparr>)"
  by (simp add: settle_def)






lemma get_reply_Obj:
  "map_of props (lit ''reply'') = Some v \<Longrightarrow> get_reply (Obj props) = Inr v"
  by simp

text \<open>
  C5. \<^verbatim>\<open>sendToBackend\<close> puts exactly one request in flight: a POST to
  \<^verbatim>\<open>http://127.0.0.1:8000/chat/turn\<close> with the content type of JSON, whose body is
  \<^verbatim>\<open>JSON.stringify({ message: text })\<close> for the text it was called with (the trimmed
  input); the end of an exchange never adds a request. When an exchange ends with a
  status from 200 to 299 and a body that parses to an object with a property \<^verbatim>\<open>reply\<close>,
  exactly one message of the agent's is appended, and its text is that property.
\<close>

theorem network_exchange:
  assumes "i < length (inflight s)" and "ok status"
    and "map_of props (lit ''reply'') = Some v"
  shows "sendToBackend text t = t\<lparr>inflight := inflight t @ [chat_request text]\<rparr>
         \<and> url (chat_request text) = lit ''http://127.0.0.1:8000/chat/turn''
         \<and> method_req (chat_request text) = lit ''POST''
         \<and> headers (chat_request text) = [(lit ''Content-Type'', lit ''application/json'')]
         \<and> body (chat_request text) = JSON_stringify (Obj [(lit ''message'', Str text)])
         \<and> (trim (input t) \<noteq> [] \<longrightarrow>
              inflight (handleSend_net env t) = inflight t @ [chat_request (trim (input t))])
         \<and> length (inflight (settle env j outcome t)) \<le> length (inflight t)
         \<and> (\<exists>m. settle env i (Response status (Inr (Obj props))) s =
               s\<lparr>messages := messages s @ [m],
                 uuid_calls := uuid_calls s + 1, now_calls := now_calls s + 1,
                 inflight := take i (inflight s) @ drop (Suc i) (inflight s)\<rparr>
             \<and> role m = Agent \<and> text_msg m = v)"
proof -
  have a: "length (inflight (settle env j outcome t)) \<le> length (inflight t)"
  proof (cases "j < length (inflight t)")
    case True
    from settle_appends[OF True, of env outcome] show ?thesis by auto
  next
    case False
    then show ?thesis by (simp add: settle_out_of_range)
  qed
  let ?m = "\<lparr>id_msg = randomUUID env (uuid_calls s), role = Agent, text_msg = v,
              createdAt = Date_now env (now_calls s)\<rparr>"
  have "settle env i (Response status (Inr (Obj props))) s =
               s\<lparr>messages := messages s @ [?m],
                 uuid_calls := uuid_calls s + 1, now_calls := now_calls s + 1,
                 inflight := take i (inflight s) @ drop (Suc i) (inflight s)\<rparr>"
    using assms(1)
    by (simp add: settle_in_range try_block_reply[OF assms(2) get_reply_Obj[OF assms(3)]])
  then have b: "\<exists>m. settle env i (Response status (Inr (Obj props))) s =
               s\<lparr>messages := messages s @ [m],
                 uuid_calls := uuid_calls s + 1, now_calls := now_calls s + 1,
                 inflight := take i (inflight s) @ drop (Suc i) (inflight s)\<rparr>
             \<and> role m = Agent \<and> text_msg m = v"
    by (intro exI[where x = ?m]) simp
  have c: "trim (input t) \<noteq> [] \<longrightarrow>
              inflight (handleSend_net env t) = inflight t @ [chat_request (trim (input t))]"
    by (simp add: handleSend_net_accepted)
  show ?thesis
    using a b c by (simp add: sendToBackend_def chat_request_def)
qed



theorem network_exchange_witness:
  "0 < length (inflight (handleSend_net sample_env sample_net))
   \<and> ok 200
   \<and> map_of [(lit ''reply'', Str (lit ''Hello!''))] (lit ''reply'') = Some (Str (lit ''Hello!''))
   \<and> trim (input sample_net) \<noteq> []
   \<and> inflight (handleSend_net sample_env sample_net) = [chat_request (lit ''hello'')]
   \<and> body (chat_request (lit ''hello'')) = JSON_stringify (Obj [(lit ''message'', Str (lit ''hello''))])
   \<and> map text_msg (drop 2 (messages (settle sample_env 0
         (Response 200 (Inr (Obj [(lit ''reply'', Str (lit ''Hello!''))])))
         (handleSend_net sample_env sample_net))))
       = [Str (lit ''Hello!'')]"
proof -
  have h1: "0 < length (inflight (handleSend_net sample_env sample_net))"
    by code_simp
  have h2: "ok 200"
    by (simp add: ok_def)
  have h3: "map_of [(lit ''reply'', Str (lit ''Hello!''))] (lit ''reply'') = Some (Str (lit ''Hello!''))"
    by simp
  have h4: "trim (input sample_net) \<noteq> []"
    by code_simp
  note inst = network_exchange [OF h1 h2 h3, of "lit ''hello''" sample_net sample_env]
  have c1: "body (chat_request (lit ''hello''))
      = JSON_stringify (Obj [(lit ''message'', Str (lit ''hello''))])"
    using inst by blast
  have "inflight (handleSend_net sample_env sample_net)
      = inflight sample_net @ [chat_request (trim (input sample_net))]"
    using inst h4 by blast
  moreover have "inflight sample_net = []" by code_simp
  moreover have "trim (input sample_net) = lit ''hello''" by code_simp
  ultimately have c2: "inflight (handleSend_net sample_env sample_net) = [chat_request (lit ''hello'')]"
    by simp
  have c3: "map text_msg (drop 2 (messages (settle sample_env 0
         (Response 200 (Inr (Obj [(lit ''reply'', Str (lit ''Hello!''))])))
         (handleSend_net sample_env sample_net))))
       = [Str (lit ''Hello!'')]"
    by code_simp
  from h1 h2 h3 h4 c1 c2 c3 show ?thesis by blast
qed

section \<open>The reply of the mock agent\<close>

lemma split_lines_nonempty: "split_lines s \<noteq> []"
  by (induction s) (auto split: list.splits)

lemma split_lines_no_feed: "0x000A \<notin> set s \<Longrightarrow> split_lines s = [s]"
  by (induction s) auto

lemma split_lines_feed:
  "split_lines (xs @ 0x000A # ys) = split_lines xs @ split_lines ys"
proof (induction xs)
  case Nil
  show ?case by simp
next
  case (Cons c cs)
  show ?case
  proof (cases "c = 0x000A")
    case True
    with Cons show ?thesis by simp
  next
    case False
    obtain l ls where "split_lines cs = l # ls"
      using split_lines_nonempty[of cs] by (cases "split_lines cs") auto
    with False Cons show ?thesis by simp
  qed
qed

lemma split_lines_front:
  "0x000A \<notin> set a \<Longrightarrow>
   split_lines (a @ xs) = (a @ hd (split_lines xs)) # tl (split_lines xs)"
proof (induction a)
  case Nil
  then show ?case using split_lines_nonempty[of xs] by simp
next
  case (Cons c cs)
  then show ?case by simp
qed

lemma split_lines_back:
  "0x000A \<notin> set b \<Longrightarrow>
   split_lines (xs @ b) = butlast (split_lines xs) @ [last (split_lines xs) @ b]"
proof (induction xs)
  case Nil
  then show ?case by (simp add: split_lines_no_feed)
next
  case (Cons c cs)
  obtain l ls where L: "split_lines cs = l # ls"
    using split_lines_nonempty[of cs] by (cases "split_lines cs") auto
  show ?case
  proof (cases "c = 0x000A")
    case True
    with Cons L show ?thesis by simp
  next
    case False
    with Cons L show ?thesis by (cases ls) simp_all
  qed
qed


text \<open>
  A text between a head and a tail without line feeds: a short line is a line of the
  whole exactly when it is an inner line of the text.
\<close>

lemma has_line_wrapped:
  assumes a: "0x000A \<notin> set a" and b: "0x000A \<notin> set b"
    and la: "length p < length a" and lb: "length p < length b"
  shows "p \<in> set (split_lines (a @ text @ b)) \<longleftrightarrow> p \<in> set (inner_lines text)"
proof -
  obtain l ls where L: "split_lines text = l # ls"
    using split_lines_nonempty[of "text"] by (cases "split_lines text") auto
  have M: "split_lines (text @ b) = butlast (l # ls) @ [last (l # ls) @ b]"
    using split_lines_back[OF b, of "text"] L by simp
  show ?thesis
  proof (cases ls)
    case Nil
    then have "split_lines (a @ text @ b) = [a @ l @ b]"
      using split_lines_front[OF a, of "text @ b"] M by simp
    moreover have "p \<noteq> a @ l @ b"
      using la by auto
    moreover have "inner_lines text = []"
      using L Nil by (simp add: inner_lines_def)
    ultimately show ?thesis by simp
  next
    case (Cons k ks)
    then have "split_lines (a @ text @ b) = (a @ l) # butlast ls @ [last ls @ b]"
      using split_lines_front[OF a, of "text @ b"] M by simp
    moreover have "p \<noteq> a @ l"
      using la by auto
    moreover have "p \<noteq> last ls @ b"
      using lb by auto
    moreover have "inner_lines text = butlast ls"
      using L by (simp add: inner_lines_def)
    ultimately show ?thesis by simp
  qed
qed

lemma has_line_acknowledgement:
  "has_line (lit ''Plan:'') (acknowledgement text) \<longleftrightarrow> lit ''Plan:'' \<in> set (inner_lines text)"
proof -
  have "lit ''Plan:'' \<in> set (split_lines ((lit ''Got it: '' @ [0x22]) @ text
          @ ([0x22] @ lit ''. I can create a batch job or answer questions.'')))
        \<longleftrightarrow> lit ''Plan:'' \<in> set (inner_lines text)"
    by (rule has_line_wrapped) (simp_all add: lit_def)
  then show ?thesis by (simp add: has_line_def acknowledgement_def)
qed

lemma plan_not_empty: "length plan \<noteq> 0"
  by (simp add: plan_def)

lemma reply_plain: "\<not> looksLikeBatch text \<Longrightarrow> reply text = acknowledgement text"
  by (simp add: reply_def planLines_def)

lemma join_Cons:
  "ys \<noteq> [] \<Longrightarrow> join sep (x # ys) = x @ sep @ join sep ys"
  by (cases ys) simp_all

lemma reply_batch:
  "looksLikeBatch text \<Longrightarrow>
   reply text = acknowledgement text @ [0x000A, 0x000A] @ join [0x000A] plan"
proof -
  assume "looksLikeBatch text"
  moreover have "plan \<noteq> []"
    using plan_not_empty by simp
  ultimately show ?thesis by (simp add: reply_def planLines_def join_Cons)
qed

lemma plan_has_line: "has_line (lit ''Plan:'') (join [0x000A] plan)"
  by code_simp

lemma has_line_reply:
  "has_line (lit ''Plan:'') (reply text)
   \<longleftrightarrow> looksLikeBatch text \<or> lit ''Plan:'' \<in> set (inner_lines text)"
proof (cases "looksLikeBatch text")
  case False
  then show ?thesis by (simp add: reply_plain has_line_acknowledgement)
next
  case True
  have "reply text = acknowledgement text @ 0x000A # ([] @ 0x000A # join [0x000A] plan)"
    using True by (simp add: reply_batch)
  then have "split_lines (reply text)
      = split_lines (acknowledgement text) @ split_lines [] @ split_lines (join [0x000A] plan)"
    by (simp only: split_lines_feed)
  then show ?thesis
    using True plan_has_line by (simp add: has_line_def)
qed

lemma inner_lines_no_feed: "0x000A \<notin> set text \<Longrightarrow> inner_lines text = []"
  by (simp add: inner_lines_def split_lines_no_feed)

lemma input_value_no_feed: "0x000A \<notin> set (input_value typed)"
  by (simp add: input_value_def)

lemma set_trim: "set (trim s) \<subseteq> set s"
proof
  fix c
  assume "c \<in> set (trim s)"
  then have "c \<in> set (dropWhile trimmable (rev (dropWhile trimmable s)))"
    by (simp add: trim_def)
  then have "c \<in> set (rev (dropWhile trimmable s))"
    by (rule set_dropWhileD)
  then have "c \<in> set (dropWhile trimmable s)"
    by simp
  then show "c \<in> set s"
    by (rule set_dropWhileD)
qed

lemma trim_input_value_no_feed: "0x000A \<notin> set (trim (input_value typed))"
  using set_trim[of "input_value typed"] input_value_no_feed[of typed] by blast

text \<open>
  What is typed into the field and then submitted: the timer set holds the reply to the
  trimmed value of the field.
\<close>

lemma typed_then_sent:
  assumes "trim (input_value typed) \<noteq> []"
  shows "\<exists>a. timers (handleSend_mock env (onChange (input_value typed) s)) = timers s @ [a]
             \<and> text_msg a = Str (reply (trim (input_value typed)))"
proof -
  let ?s = "onChange (input_value typed) s"
  have i: "input ?s = input_value typed" and t: "timers ?s = timers s"
    by (simp_all add: onChange_def)
  have "trim (input ?s) \<noteq> []"
    using assms i by simp
  from handleSend_mock_accepted[OF this, of env]
  have "timers (handleSend_mock env ?s) =
          timers ?s @ [\<lparr>id_msg = randomUUID env (uuid_calls ?s + 1), role = Agent,
              text_msg = Str (reply (trim (input ?s))),
              createdAt = Date_now env (now_calls ?s + 1)\<rparr>]"
    by simp
  then show ?thesis
    using i t by simp
qed

text \<open>
  C2. For every text that the composer of the mock variant hands to \<^verbatim>\<open>mockAgentReply\<close>
  (whatever was typed or pasted into the field, as the field's value, trimmed), and more
  generally for every text without a line feed, the reply has the line \<^verbatim>\<open>Plan:\<close>
  exactly when the text matches both regular expressions. When both match, the reply is
  the acknowledgement, an empty line and the plan, whose first line is \<^verbatim>\<open>Plan:\<close>; when
  one of them does not match, the reply is the acknowledgement alone, with no plan. The
  reply that the timer holds after typing and submitting is the reply to that text.
\<close>

theorem plan_line_iff:
  "(has_line (lit ''Plan:'') (reply (trim (input_value typed)))
      \<longleftrightarrow> regex_test action_regex (trim (input_value typed))
          \<and> regex_test subject_regex (trim (input_value typed)))
   \<and> (trim (input_value typed) \<noteq> [] \<longrightarrow>
        (\<exists>a. timers (handleSend_mock env (onChange (input_value typed) s)) = timers s @ [a]
             \<and> text_msg a = Str (reply (trim (input_value typed)))))
   \<and> (0x000A \<notin> set text \<longrightarrow>
        (has_line (lit ''Plan:'') (reply text)
           \<longleftrightarrow> regex_test action_regex text \<and> regex_test subject_regex text))
   \<and> (regex_test action_regex text \<and> regex_test subject_regex text \<longrightarrow>
        reply text = acknowledgement text @ [0x000A, 0x000A] @ join [0x000A] plan)
   \<and> (\<not> (regex_test action_regex text \<and> regex_test subject_regex text) \<longrightarrow>
        reply text = acknowledgement text
        \<and> (0x000A \<notin> set text \<longrightarrow> \<not> has_line (lit ''Plan:'') (reply text)))
   \<and> hd plan = lit ''Plan:''"
proof -
  have p: "hd plan = lit ''Plan:''" by (simp add: plan_def)
  have g: "0x000A \<notin> set t \<Longrightarrow>
        (has_line (lit ''Plan:'') (reply t)
           \<longleftrightarrow> regex_test action_regex t \<and> regex_test subject_regex t)" for t
    using has_line_reply[of t] inner_lines_no_feed[of t] by (simp add: looksLikeBatch_def)
  have f: "has_line (lit ''Plan:'') (reply (trim (input_value typed)))
      \<longleftrightarrow> regex_test action_regex (trim (input_value typed))
          \<and> regex_test subject_regex (trim (input_value typed))"
    using trim_input_value_no_feed by (rule g)
  have b: "regex_test action_regex text \<and> regex_test subject_regex text \<longrightarrow>
        reply text = acknowledgement text @ [0x000A, 0x000A] @ join [0x000A] plan"
    using reply_batch[of "text"] by (simp add: looksLikeBatch_def)
  have n: "\<not> (regex_test action_regex text \<and> regex_test subject_regex text) \<longrightarrow>
        reply text = acknowledgement text"
    using reply_plain[of "text"] by (simp add: looksLikeBatch_def)
  have h: "trim (input_value typed) \<noteq> [] \<longrightarrow>
        (\<exists>a. timers (handleSend_mock env (onChange (input_value typed) s)) = timers s @ [a]
             \<and> text_msg a = Str (reply (trim (input_value typed))))"
    using typed_then_sent[of typed env s] by blast
  from p f b n h g[of "text"] show ?thesis by blast
qed

theorem plan_line_iff_witness:
  "input_value (lit ''notes'' @ [0x000A] @ lit ''Plan:'' @ [0x000D, 0x000A] @ lit ''buy milk'')
     = lit ''notesPlan:buy milk''
   \<and> \<not> has_line (lit ''Plan:'')
         (reply (trim (input_value (lit ''notes'' @ [0x000A] @ lit ''Plan:'' @ [0x000D, 0x000A]
            @ lit ''buy milk''))))
   \<and> trim (input_value (lit '' Generate 8 posters '')) = lit ''Generate 8 posters''
   \<and> has_line (lit ''Plan:'') (reply (trim (input_value (lit '' Generate 8 posters ''))))
   \<and> map text_msg (timers (handleSend_mock sample_env
         (onChange (input_value (lit '' Generate 8 posters '')) sample_mock)))
       = [Str (reply (lit ''Generate 8 posters''))]
   \<and> 0x000A \<notin> set (lit ''generate a song'')
   \<and> regex_test action_regex (lit ''generate a song'')
   \<and> \<not> regex_test subject_regex (lit ''generate a song'')
   \<and> \<not> has_line (lit ''Plan:'') (reply (lit ''generate a song''))
   \<and> reply (lit ''generate a song'') = acknowledgement (lit ''generate a song'')
   \<and> 0x000A \<notin> set (lit ''a POSTER, please'')
   \<and> \<not> regex_test action_regex (lit ''a POSTER, please'')
   \<and> regex_test subject_regex (lit ''a POSTER, please'')
   \<and> \<not> has_line (lit ''Plan:'') (reply (lit ''a POSTER, please''))"
proof -
  let ?pasted = "lit ''notes'' @ [0x000A] @ lit ''Plan:'' @ [0x000D, 0x000A] @ lit ''buy milk''"
  let ?typed = "lit '' Generate 8 posters ''"
  have v1: "input_value ?pasted = lit ''notesPlan:buy milk''"
    by code_simp
  have r1: "\<not> (regex_test action_regex (trim (input_value ?pasted))
               \<and> regex_test subject_regex (trim (input_value ?pasted)))"
    by code_simp
  have c1: "\<not> has_line (lit ''Plan:'') (reply (trim (input_value ?pasted)))"
    using plan_line_iff[of ?pasted sample_env sample_mock "lit ''generate a song''"] r1 by blast
  have v2: "trim (input_value ?typed) = lit ''Generate 8 posters''"
    by code_simp
  have e2: "trim (input_value ?typed) \<noteq> []"
    unfolding v2 by (simp add: lit_def)
  have r2: "regex_test action_regex (trim (input_value ?typed))
            \<and> regex_test subject_regex (trim (input_value ?typed))"
    by code_simp
  note inst2 = plan_line_iff[of ?typed sample_env sample_mock "lit ''a POSTER, please''"]
  have c2: "has_line (lit ''Plan:'') (reply (trim (input_value ?typed)))"
    using inst2 r2 by blast
  have t0: "timers sample_mock = []"
    by code_simp
  obtain a where "timers (handleSend_mock sample_env (onChange (input_value ?typed) sample_mock))
        = timers sample_mock @ [a]"
    and "text_msg a = Str (reply (trim (input_value ?typed)))"
    using inst2 e2 by blast
  then have c2': "map text_msg (timers (handleSend_mock sample_env
         (onChange (input_value ?typed) sample_mock)))
       = [Str (reply (lit ''Generate 8 posters''))]"
    using t0 v2 by simp
  have n3: "0x000A \<notin> set (lit ''generate a song'')" by (simp add: lit_def)
  have a3: "regex_test action_regex (lit ''generate a song'')" by code_simp
  have s3: "\<not> regex_test subject_regex (lit ''generate a song'')" by code_simp
  have c3: "\<not> has_line (lit ''Plan:'') (reply (lit ''generate a song''))
            \<and> reply (lit ''generate a song'') = acknowledgement (lit ''generate a song'')"
    using plan_line_iff[of ?pasted sample_env sample_mock "lit ''generate a song''"] n3 s3
    by blast
  have n4: "0x000A \<notin> set (lit ''a POSTER, please'')" by (simp add: lit_def)
  have a4: "\<not> regex_test action_regex (lit ''a POSTER, please'')" by code_simp
  have s4: "regex_test subject_regex (lit ''a POSTER, please'')" by code_simp
  have c4: "\<not> has_line (lit ''Plan:'') (reply (lit ''a POSTER, please''))"
    using inst2 n4 a4 by blast
  from v1 c1 v2 c2 c2' n3 a3 s3 c3 n4 a4 s4 c4 show ?thesis by blast
qed

end
